theory Spec2Isabelle
  imports Main "HOL-Library.Sublist"
begin

section \<open>Python strings\<close>

text \<open>
  A Python \<open>str\<close> is a sequence of Unicode code points. The response cleaner writes the
  bullet glyph U+2022 and its patterns look at single code points, so a character is its
  code point (a natural number) and a string is a list of them. \<open>str\<close> reads an ASCII
  literal of the source as such a list.
\<close>

type_synonym pystr = "nat list"

definition str :: "string \<Rightarrow> pystr" where
  "str s = map of_char s"

text \<open>
  \<open>str.isspace\<close>, \<open>str.strip()\<close>, \<open>str.split()\<close> and the pattern \<open>\s\<close> of \<open>re\<close> on a
  \<open>str\<close> agree on what whitespace is: the code points below.
\<close>

definition is_space :: "nat \<Rightarrow> bool" where
  "is_space c = ((9 \<le> c \<and> c \<le> 13) \<or> (28 \<le> c \<and> c \<le> 32) \<or> c = 133 \<or> c = 160
     \<or> c = 5760 \<or> (8192 \<le> c \<and> c \<le> 8202) \<or> c = 8232 \<or> c = 8233 \<or> c = 8239
     \<or> c = 8287 \<or> c = 12288)"

text \<open>\<open>[ \t]\<close>: a space or a tab.\<close>

definition is_blank :: "nat \<Rightarrow> bool" where
  "is_blank c = (c = 32 \<or> c = 9)"

text \<open>\<open>[A-Z]\<close> without \<open>re.IGNORECASE\<close>: the 26 ASCII capitals.\<close>

definition is_upper_AZ :: "nat \<Rightarrow> bool" where
  "is_upper_AZ c = (65 \<le> c \<and> c \<le> 90)"

text \<open>\<open>string.punctuation\<close>: the 32 ASCII punctuation characters.\<close>

definition is_punctuation :: "nat \<Rightarrow> bool" where
  "is_punctuation c = ((33 \<le> c \<and> c \<le> 47) \<or> (58 \<le> c \<and> c \<le> 64)
     \<or> (91 \<le> c \<and> c \<le> 96) \<or> (123 \<le> c \<and> c \<le> 126))"

text \<open>
  \<open>str.lower()\<close>. On a string of ASCII characters it turns the capitals \<open>A\<close> to \<open>Z\<close> into
  \<open>a\<close> to \<open>z\<close> and leaves the other characters. On any other string the result comes
  from the case mappings of the Unicode character database, which are not part of the
  program: the Kelvin sign U+212A becomes \<open>k\<close>, U+0130 becomes two code points, a capital
  sigma depends on its place in the word. That mapping is the parameter \<open>unicode_lower\<close>
  of \<open>lower\<close> and of every function that lowercases; nothing is assumed about it, so
  what is proved for every \<open>unicode_lower\<close> holds for the mapping that Python has.
\<close>

definition lower_char :: "nat \<Rightarrow> nat" where
  "lower_char c = (if 65 \<le> c \<and> c \<le> 90 then c + 32 else c)"

fun is_ascii :: "pystr \<Rightarrow> bool" where
  "is_ascii [] = True"
| "is_ascii (c # cs) = (c < 128 \<and> is_ascii cs)"

definition lower :: "(pystr \<Rightarrow> pystr) \<Rightarrow> pystr \<Rightarrow> pystr" where
  "lower unicode_lower s = (if is_ascii s then map lower_char s else unicode_lower s)"

text \<open>
  \<open>str.capitalize()\<close> on a word of ASCII characters: the first character in upper case,
  the others in lower case. The program capitalises only the words of the keys of its
  \<open>sources\<close> table, which are lowercase ASCII letters.
\<close>

definition upper_char :: "nat \<Rightarrow> nat" where
  "upper_char c = (if 97 \<le> c \<and> c \<le> 122 then c - 32 else c)"

definition capitalize :: "pystr \<Rightarrow> pystr" where
  "capitalize w = (case w of [] \<Rightarrow> [] | c # cs \<Rightarrow> upper_char c # map lower_char cs)"

text \<open>\<open>s.strip()\<close>: whitespace is removed at both ends.\<close>

definition strip :: "pystr \<Rightarrow> pystr" where
  "strip s = rev (dropWhile is_space (rev (dropWhile is_space s)))"

text \<open>\<open>s.split()\<close>: the maximal runs of characters that are not whitespace.\<close>

function split :: "pystr \<Rightarrow> pystr list" where
  "split [] = []"
| "split (c # cs) =
     (if is_space c then split cs
      else takeWhile (\<lambda>x. \<not> is_space x) (c # cs) # split (dropWhile (\<lambda>x. \<not> is_space x) cs))"
  by pat_completeness auto
termination
  by (relation "measure length") (auto simp: le_imp_less_Suc length_dropWhile_le)

text \<open>\<open>sep.join(ws)\<close>.\<close>

fun join :: "pystr \<Rightarrow> pystr list \<Rightarrow> pystr" where
  "join sep [] = []"
| "join sep [w] = w"
| "join sep (w # ws) = w @ sep @ join sep ws"

text \<open>\<open>k in q\<close> on strings: \<open>k\<close> occurs in \<open>q\<close> as a contiguous substring.\<close>

fun py_in :: "pystr \<Rightarrow> pystr \<Rightarrow> bool" where
  "py_in k [] = (k = [])"
| "py_in k (c # cs) = (prefix k (c # cs) \<or> py_in k cs)"

text \<open>\<open>any(k in q for k in kws)\<close>.\<close>

fun any_in :: "pystr list \<Rightarrow> pystr \<Rightarrow> bool" where
  "any_in [] q = False"
| "any_in (k # ks) q = (py_in k q \<or> any_in ks q)"

text \<open>
  \<open>s.replace(old, new)\<close>: the occurrences of \<open>old\<close> are replaced from left to right, without
  overlap. (With an empty \<open>old\<close>, Python puts \<open>new\<close> before every character and at the end.)
\<close>

fun replace_from :: "pystr \<Rightarrow> pystr \<Rightarrow> pystr \<Rightarrow> pystr" where
  "replace_from old new [] = []"
| "replace_from old new (c # cs) =
     (if prefix old (c # cs) then new @ replace_from old new (drop (length old - 1) cs)
      else c # replace_from old new cs)"

definition replace :: "pystr \<Rightarrow> pystr \<Rightarrow> pystr \<Rightarrow> pystr" where
  "replace old new s =
     (if old = [] then new @ concat (map (\<lambda>c. c # new) s) else replace_from old new s)"

section \<open>The response cleaner (utils.py)\<close>

text \<open>
  Each \<open>re.sub\<close> of \<open>clean_response_text\<close> is one function. \<open>re.sub\<close> scans the text from
  left to right; at each position it tries the pattern, and after a match it goes on
  behind the match. None of the patterns matches the empty string.
\<close>

definition bullet :: "pystr" where
  "bullet = [8226, 32]"

text \<open>
  \<open>re.sub(r'^\*\*\*([^*])', r'\<bullet> \1', text, flags=re.MULTILINE)\<close>. With \<open>re.MULTILINE\<close>,
  \<open>^\<close> matches at the start of the text and behind every newline; \<open>bol\<close> says that the
  position is such a place. \<open>[^*]\<close> is any character but the asterisk, a newline too.
\<close>

fun sub_bullet :: "bool \<Rightarrow> pystr \<Rightarrow> pystr" where
  "sub_bullet bol (c # c2 # c3 # c4 # rest) =
     (if bol \<and> c = 42 \<and> c2 = 42 \<and> c3 = 42 \<and> c4 \<noteq> 42
      then bullet @ c4 # sub_bullet (c4 = 10) rest
      else c # sub_bullet (c = 10) (c2 # c3 # c4 # rest))"
| "sub_bullet bol (c # cs) = c # sub_bullet (c = 10) cs"
| "sub_bullet bol [] = []"

text \<open>
  \<open>re.sub(r'\n\s*\n\s*\n+', '\n\n', text)\<close>. Every character of a match is whitespace, so
  a match at a newline lies in the whitespace run \<open>w\<close> that follows this newline. The
  pattern needs two more newlines in \<open>w\<close>; the greedy \<open>\s*\<close> then give back characters
  only until the last \<open>\n+\<close> sits on the last newline of \<open>w\<close>, where the match ends.
\<close>

definition upto_last_newline :: "pystr \<Rightarrow> nat" where
  "upto_last_newline w = length w - length (takeWhile (\<lambda>x. x \<noteq> 10) (rev w))"

fun sub_blank_lines :: "pystr \<Rightarrow> pystr" where
  "sub_blank_lines [] = []"
| "sub_blank_lines (c # cs) =
     (if c = 10 \<and> 2 \<le> count_list (takeWhile is_space cs) 10
      then [10, 10] @ sub_blank_lines (drop (upto_last_newline (takeWhile is_space cs)) cs)
      else c # sub_blank_lines cs)"

text \<open>\<open>re.sub(r'[ \t]+', ' ', text)\<close>: a maximal run of spaces and tabs becomes one space.\<close>

function sub_blanks :: "pystr \<Rightarrow> pystr" where
  "sub_blanks [] = []"
| "sub_blanks (c # cs) =
     (if is_blank c then 32 # sub_blanks (dropWhile is_blank cs) else c # sub_blanks cs)"
  by pat_completeness auto
termination
  by (relation "measure length") (auto simp: le_imp_less_Suc length_dropWhile_le)

text \<open>
  \<open>re.sub(r'^\s+', '', text, flags=re.MULTILINE)\<close>: a whitespace run that starts at the
  start of a line is removed whole (it may span several lines).
\<close>

function sub_leading_ws :: "bool \<Rightarrow> pystr \<Rightarrow> pystr" where
  "sub_leading_ws bol [] = []"
| "sub_leading_ws bol (c # cs) =
     (if bol \<and> is_space c
      then sub_leading_ws (last (c # takeWhile is_space cs) = 10) (dropWhile is_space cs)
      else c # sub_leading_ws (c = 10) cs)"
  by pat_completeness auto
termination
  by (relation "measure (\<lambda>(bol, s). length s)") (auto simp: le_imp_less_Suc length_dropWhile_le)

text \<open>
  \<open>re.sub(r'\*\*\s*\*\*', '**', text)\<close>: two asterisks, the whole whitespace run behind
  them (the asterisk is no whitespace, so \<open>\s*\<close> cannot stop earlier), two asterisks.
  \<open>drop 1 cs\<close> is the text behind the first two asterisks.
\<close>

function sub_empty_bold :: "pystr \<Rightarrow> pystr" where
  "sub_empty_bold [] = []"
| "sub_empty_bold (c # cs) =
     (if prefix [42, 42] (c # cs) \<and> prefix [42, 42] (dropWhile is_space (drop 1 cs))
      then [42, 42] @ sub_empty_bold (drop 2 (dropWhile is_space (drop 1 cs)))
      else c # sub_empty_bold cs)"
  by pat_completeness auto
termination
proof (relation "measure length")
  fix c :: nat and cs :: pystr
  have "length (dropWhile is_space (drop 1 cs)) \<le> length cs"
    using length_dropWhile_le [of is_space "drop 1 cs"] by simp
  then show "(drop 2 (dropWhile is_space (drop 1 cs)), c # cs) \<in> measure length"
    by simp
qed auto

text \<open>
  \<open>re.sub(r'\*\*([^*]+)\*\*\*', r'**\1**', text)\<close>: two asterisks, the whole run \<open>n\<close> of
  other characters behind them, which is not empty, and three asterisks; the scan goes
  on behind these.
\<close>

function sub_bold_tail :: "pystr \<Rightarrow> pystr" where
  "sub_bold_tail [] = []"
| "sub_bold_tail (c # cs) =
     (let n = takeWhile (\<lambda>x. x \<noteq> 42) (drop 1 cs);
          behind = dropWhile (\<lambda>x. x \<noteq> 42) (drop 1 cs)
      in if prefix [42, 42] (c # cs) \<and> n \<noteq> [] \<and> prefix [42, 42, 42] behind
         then [42, 42] @ n @ [42, 42] @ sub_bold_tail (drop 3 behind)
         else c # sub_bold_tail cs)"
  by pat_completeness auto
termination
proof (relation "measure length")
  fix c :: nat and cs n behind :: pystr
  assume "behind = dropWhile (\<lambda>x. x \<noteq> 42) (drop 1 cs)"
  then have "length behind \<le> length cs"
    using length_dropWhile_le [of "\<lambda>x. x \<noteq> 42" "drop 1 cs"] by simp
  then show "(drop 3 behind, c # cs) \<in> measure length"
    by simp
qed auto

text \<open>\<open>re.sub(r'\.([A-Z])', r'. \1', text)\<close>.\<close>

fun sub_sentence :: "pystr \<Rightarrow> pystr" where
  "sub_sentence [] = []"
| "sub_sentence [c] = [c]"
| "sub_sentence (c # d # cs) =
     (if c = 46 \<and> is_upper_AZ d then [46, 32, d] @ sub_sentence cs
      else c # sub_sentence (d # cs))"

definition clean_response_text :: "pystr \<Rightarrow> pystr" where
  "clean_response_text text =
     (if text = [] then text
      else
        let text = replace (str ''***'') (str ''**'') text;
            text = replace (str ''****'') (str ''**'') text;
            text = replace (str ''*****'') (str ''**'') text;
            text = sub_bullet True text;
            text = sub_blank_lines text;
            text = sub_blanks text;
            text = sub_leading_ws True text;
            text = sub_empty_bold text;
            text = sub_bold_tail text;
            text = sub_sentence text
        in strip text)"

section \<open>The text classifier (utils.py)\<close>

text \<open>The keyword lists of the module, in the order of the source.\<close>

definition GREETINGS :: "pystr list" where
  "GREETINGS = map str
     [''hi'', ''hello'', ''hey'', ''namaste'', ''yo'', ''pranam'', ''jai shree ram'',
      ''om namah shivaya'', ''radhe radhe'', ''good morning'', ''good afternoon'',
      ''good evening'']"

definition TASK_KEYWORDS :: "pystr list" where
  "TASK_KEYWORDS = map str
     [''dharma'', ''karma'', ''moksha'', ''atman'', ''brahman'', ''yoga'', ''meditation'',
      ''bhakti'', ''jnana'', ''seva'', ''stress'', ''anxiety'', ''fear'', ''sadness'',
      ''anger'', ''grief'', ''purpose'', ''meaning of life'', ''suffering'',
      ''bhagavad gita'', ''veda'', ''upanishad'', ''purana'', ''ramayana'',
      ''mahabharata'', ''scripture'', ''text'', ''shastra'', ''guidance'', ''solution'',
      ''advice'', ''teachings'', ''principles'', ''philosophy'', ''answer'', ''explain'',
      ''meaning'', ''table'', ''format'', ''chart'', ''show'', ''give'', ''list'',
      ''bullet'', ''points'', ''itemize'', ''enumerate'']"

definition FORMATTING_KEYWORDS :: "pystr list" where
  "FORMATTING_KEYWORDS = map str
     [''table'', ''tabular'', ''chart'', ''format'', ''list'', ''bullet'', ''points'',
      ''itemize'', ''enumerate'', ''in a table'', ''as a table'']"

text \<open>
  \<open>_clean_query\<close>: \<open>query.translate(str.maketrans('', '', string.punctuation))\<close> deletes the
  punctuation characters; the result is stripped and then lowercased.
\<close>

definition clean_query :: "(pystr \<Rightarrow> pystr) \<Rightarrow> pystr \<Rightarrow> pystr" where
  "clean_query unicode_lower query =
     lower unicode_lower (strip (filter (\<lambda>c. \<not> is_punctuation c) query))"

definition is_greeting :: "(pystr \<Rightarrow> pystr) \<Rightarrow> pystr \<Rightarrow> bool" where
  "is_greeting unicode_lower query =
     (if query = [] then False
      else
        let cleaned_query = clean_query unicode_lower query;
            words = split cleaned_query;
            is_pure_greeting = (cleaned_query \<in> set GREETINGS \<and> length words \<le> 3);
            contains_task_keywords = any_in TASK_KEYWORDS cleaned_query
        in is_pure_greeting \<and> \<not> contains_task_keywords)"

definition filler_words :: "pystr list" where
  "filler_words = map str
     [''in'', ''a'', ''as'', ''give'', ''me'', ''show'', ''it'', ''that'', ''please'',
      ''can'', ''you'', ''provide'', ''the'', ''an'', ''this'', ''my'', ''your'', ''for'',
      ''me'']"

definition is_formatting_request :: "(pystr \<Rightarrow> pystr) \<Rightarrow> pystr \<Rightarrow> bool" where
  "is_formatting_request unicode_lower query =
     (if query = [] then False
      else
        let cleaned_query = clean_query unicode_lower query;
            words = split cleaned_query
        in if \<not> any_in FORMATTING_KEYWORDS cleaned_query then False
           else
             let non_formatting_or_filler_words =
                   filter (\<lambda>w. w \<notin> set FORMATTING_KEYWORDS \<and> w \<notin> set filler_words) words
             in length non_formatting_or_filler_words \<le> 1)"

text \<open>
  The three extractors run the same loop over a table, a \<open>dict\<close> literal whose \<open>items()\<close>
  come in the order of the source: the first category with a keyword in \<open>q\<close> is returned.
  \<open>None\<close> stands for a loop that ends without a \<open>return\<close>.
\<close>

fun first_match :: "(pystr \<times> pystr list) list \<Rightarrow> pystr \<Rightarrow> pystr option" where
  "first_match [] q = None"
| "first_match ((category, kws) # table) q =
     (if any_in kws q then Some category else first_match table q)"

definition concepts :: "(pystr \<times> pystr list) list" where
  "concepts =
     [(str ''dharma'', map str [''dharma'', ''duty'', ''righteousness'']),
      (str ''karma'', map str [''karma'', ''action'', ''consequence'', ''karma yoga'']),
      (str ''moksha'', map str [''moksha'', ''liberation'', ''salvation'', ''enlightenment'']),
      (str ''atman'', map str [''atman'', ''soul'', ''self'']),
      (str ''brahman'', map str [''brahman'', ''ultimate reality'', ''absolute truth'']),
      (str ''yoga'', map str [''yoga'', ''meditation'', ''union'', ''asanas'']),
      (str ''bhakti'', map str [''bhakti'', ''devotion'', ''bhakti yoga'']),
      (str ''jnana'', map str [''jnana'', ''knowledge'', ''wisdom'', ''jnana yoga'']),
      (str ''seva'', map str [''seva'', ''selfless service'']),
      (str ''reincarnation'', map str [''reincarnation'', ''rebirth'', ''samsara'']),
      (str ''maya'', map str [''maya'', ''illusion'', ''worldly illusion'']),
      (str ''nirvana'', map str [''nirvana'', ''spiritual liberation'']),
      (str ''guna'', map str [''guna'', ''qualities'', ''modes of nature'']),
      (str ''sanskara'', map str [''sanskara'', ''impressions'', ''mental imprints'']),
      (str ''sattva'', map str [''sattva'', ''purity'', ''goodness'']),
      (str ''rajas'', map str [''rajas'', ''passion'', ''activity'']),
      (str ''tamas'', map str [''tamas'', ''ignorance'', ''darkness''])]"

definition extract_spiritual_concept :: "(pystr \<Rightarrow> pystr) \<Rightarrow> pystr \<Rightarrow> pystr" where
  "extract_spiritual_concept unicode_lower query =
     (let q = lower unicode_lower query
      in case first_match concepts q of
           Some concept \<Rightarrow> concept
         | None \<Rightarrow> str ''general'')"

definition problems :: "(pystr \<times> pystr list) list" where
  "problems =
     [(str ''stress'', map str [''stress'', ''tension'', ''anxiety'', ''worry'', ''overwhelmed'', ''pressure'']),
      (str ''anger'', map str [''anger'', ''frustration'', ''irritation'', ''rage'', ''resentment'']),
      (str ''grief'', map str [''grief'', ''loss'', ''sadness'', ''sorrow'', ''bereavement'', ''heartbreak'']),
      (str ''purpose'', map str [''purpose'', ''meaning of life'', ''direction'', ''aim'', ''goal'',
          ''why am i here'', ''lack of direction'']),
      (str ''fear'', map str [''fear'', ''insecurity'', ''doubt'', ''apprehension'', ''courage'', ''hesitation'']),
      (str ''relationships'', map str [''relationship'', ''family'', ''friends'', ''love'', ''conflict'', ''breakup'',
          ''marriage'', ''loneliness'', ''social issues'']),
      (str ''suffering'', map str [''suffering'', ''pain'', ''hardship'', ''adversity'', ''misery'', ''struggle'']),
      (str ''decision making'', map str [''decision'', ''choice'', ''dilemma'', ''confused'', ''uncertainty'', ''indecision'']),
      (str ''materialism'', map str [''materialism'', ''attachment'', ''desire'', ''greed'']),
      (str ''ego'', map str [''ego'', ''pride'', ''self-importance'', ''arrogance'']),
      (str ''depression'', map str [''depression'', ''despair'', ''hopelessness'', ''melancholy''])]"

definition extract_life_problem :: "(pystr \<Rightarrow> pystr) \<Rightarrow> pystr \<Rightarrow> pystr" where
  "extract_life_problem unicode_lower query =
     (let q = lower unicode_lower query
      in case first_match problems q of
           Some problem \<Rightarrow> problem
         | None \<Rightarrow> str ''guidance'')"

definition sources :: "(pystr \<times> pystr list) list" where
  "sources =
     [(str ''bhagavad gita'', map str [''bhagavad gita'', ''gita'', ''bhagwad geeta'']),
      (str ''veda'', map str [''veda'', ''vedas'', ''rigveda'', ''yajurveda'', ''samaveda'', ''atharvaveda'']),
      (str ''upanishad'', map str [''upanishad'', ''upanishads'']),
      (str ''purana'', map str [''purana'', ''puranas'', ''vishnu purana'', ''bhagavata purana'', ''garuda purana'',
          ''skanda purana'']),
      (str ''ramayana'', map str [''ramayana'', ''ramayan'', ''valmiki ramayana'']),
      (str ''mahabharata'', map str [''mahabharata'', ''mahabharat'']),
      (str ''yoga sutras'', map str [''yoga sutras'', ''patanjali yoga sutras'', ''patanjali'']),
      (str ''dharma shastras'', map str [''dharma shastras'', ''manu smriti'']),
      (str ''hatha yoga pradipika'', map str [''hatha yoga pradipika'']),
      (str ''shiva sutras'', map str [''shiva sutras'']),
      (str ''brahma sutras'', map str [''brahma sutras'']),
      (str ''vedanta'', map str [''vedanta''])]"

text \<open>\<open>" ".join([w.capitalize() for w in source.split()])\<close>.\<close>

definition formatted_source :: "pystr \<Rightarrow> pystr" where
  "formatted_source source = join (str '' '') (map capitalize (split source))"

definition extract_scripture_source :: "(pystr \<Rightarrow> pystr) \<Rightarrow> pystr \<Rightarrow> pystr" where
  "extract_scripture_source unicode_lower query =
     (let q = lower unicode_lower query
      in case first_match sources q of
           Some source \<Rightarrow> formatted_source source
         | None \<Rightarrow> str ''Hindu scriptures'')"

definition contains_table_request :: "(pystr \<Rightarrow> pystr) \<Rightarrow> pystr \<Rightarrow> bool" where
  "contains_table_request unicode_lower query =
     (let q = lower unicode_lower query in any_in FORMATTING_KEYWORDS q)"

section \<open>Cleaning the suggestions (utils.py)\<close>

text \<open>
  A value of the suggestions dict is a \<open>str\<close> or something else, of any type \<open>'a\<close>. A
  \<open>dict\<close> keeps its items in insertion order with one item for each key: an association
  list. \<open>cleaned[key] = v\<close> overwrites the value of a key that is there and appends a new
  key otherwise.
\<close>

datatype 'a pyval = PStr pystr | POther 'a

type_synonym ('k, 'a) pydict = "('k \<times> 'a pyval) list"

fun dict_set :: "'k \<Rightarrow> 'v \<Rightarrow> ('k \<times> 'v) list \<Rightarrow> ('k \<times> 'v) list" where
  "dict_set key v [] = [(key, v)]"
| "dict_set key v ((k, w) # d) = (if k = key then (k, v) # d else (k, w) # dict_set key v d)"

fun clean_suggestions_loop :: "('k, 'a) pydict \<Rightarrow> ('k, 'a) pydict \<Rightarrow> ('k, 'a) pydict" where
  "clean_suggestions_loop [] cleaned = cleaned"
| "clean_suggestions_loop ((key, val) # items) cleaned =
     clean_suggestions_loop items
       (case val of
          PStr s \<Rightarrow> dict_set key (PStr (clean_response_text s)) cleaned
        | POther x \<Rightarrow> dict_set key (POther x) cleaned)"

definition clean_suggestions :: "('k, 'a) pydict \<Rightarrow> ('k, 'a) pydict" where
  "clean_suggestions suggestions = clean_suggestions_loop suggestions []"

section \<open>The chat endpoint (fastapi_app.py)\<close>

text \<open>
  \<open>ChatRequest\<close>: \<open>session_id\<close> is \<open>None\<close> when the body has no such field.
\<close>

record ChatRequest =
  query :: pystr
  session_id :: "pystr option"
  format_table :: bool

text \<open>An exception, with the text that \<open>str(e)\<close> gives.\<close>

datatype exn = Exception pystr

text \<open>
  The modules \<open>config\<close>, \<open>llms\<close>, \<open>vector_db\<close>, \<open>qa_chain\<close> and \<open>groq_api\<close> and the
  services behind them are outside the two modules modelled here: what \<open>handle_chat\<close>
  reads and calls there is a parameter of the model. A call returns a value or raises; the
  objects it passes on (the model handle, the embedding, the database, the retriever, the
  chain) are opaque values of type \<open>'h\<close>. \<open>uuid4_hex\<close> is the value of
  \<open>uuid.uuid4().hex\<close> drawn for this request; \<open>invoke\<close> gives the \<open>"answer"\<close> entry of the
  chain's result, if there is one.
\<close>

record ('h, 'v) environment =
  GEMINI_API_KEY :: "pystr option"
  GOOGLE_CREDENTIALS_JSON :: "pystr option"
  GROQ_API_KEY :: "pystr option"
  uuid4_hex :: pystr
  init_gemini_llm :: "pystr option \<Rightarrow> exn + 'h"
  init_embeddings :: "pystr option \<Rightarrow> exn + 'h"
  load_chroma_db :: "'h \<Rightarrow> exn + 'h"
  as_retriever :: "'h \<Rightarrow> nat \<Rightarrow> exn + 'h"
  create_conversational_chain :: "'h \<Rightarrow> 'h \<Rightarrow> pystr option \<Rightarrow> exn + 'h"
  invoke :: "'h \<Rightarrow> pystr \<Rightarrow> pystr \<Rightarrow> pystr \<Rightarrow> pystr \<Rightarrow> pystr \<Rightarrow> exn + pystr option"
  cached_groq_answers ::
    "pystr \<Rightarrow> pystr \<Rightarrow> pystr \<Rightarrow> pystr \<Rightarrow> pystr \<Rightarrow> exn + (pystr, 'v) pydict"
  merge_groq_and_rag_answers ::
    "'h \<Rightarrow> pystr \<Rightarrow> (pystr, 'v) pydict \<Rightarrow> pystr \<Rightarrow> pystr \<Rightarrow> pystr \<Rightarrow> bool \<Rightarrow> exn + pystr"

text \<open>
  What the endpoint answers: the JSON object \<open>{"answer", "suggestions", "session_id"}\<close>
  with status 200, or the \<open>HTTPException\<close> with its status code and detail.
\<close>

datatype 'v http_result =
  Response200 pystr "(pystr, 'v) pydict" pystr
| HTTPException nat pystr

text \<open>Inside \<open>try\<close>: the first call that raises ends the block with its exception.\<close>

definition try_bind :: "exn + 'a \<Rightarrow> ('a \<Rightarrow> exn + 'b) \<Rightarrow> exn + 'b" where
  "try_bind m f = (case m of Inl e \<Rightarrow> Inl e | Inr x \<Rightarrow> f x)"

text \<open>\<open>x or y\<close> on an optional string: \<open>None\<close> and the empty string are falsy.\<close>

definition py_or :: "pystr option \<Rightarrow> pystr \<Rightarrow> pystr" where
  "py_or x y = (case x of None \<Rightarrow> y | Some s \<Rightarrow> if s = [] then y else s)"

definition unavailable_suggestions :: "(pystr, 'v) pydict" where
  "unavailable_suggestions =
     [(str ''llama'', PStr (str ''N/A'')), (str ''mixtral'', PStr (str ''N/A'')),
      (str ''gemma'', PStr (str ''N/A''))]"

text \<open>\<open>if GROQ_API_KEY: ... else: ...\<close> with the suggestions it leaves.\<close>

definition get_suggestions ::
  "('h, 'v) environment \<Rightarrow> pystr \<Rightarrow> pystr \<Rightarrow> pystr \<Rightarrow> pystr \<Rightarrow> exn + (pystr, 'v) pydict" where
  "get_suggestions env effective_query spiritual_concept life_problem scripture_source =
     (case GROQ_API_KEY env of
        None \<Rightarrow> Inr unavailable_suggestions
      | Some key \<Rightarrow>
          if key = [] then Inr unavailable_suggestions
          else try_bind
                 (cached_groq_answers env effective_query key spiritual_concept life_problem
                    scripture_source)
                 (\<lambda>raw_suggestions. Inr (clean_suggestions raw_suggestions)))"

text \<open>
  What \<open>handle_chat\<close> does with the query and the session id: \<open>format_as_table\<close>, which
  the source computes right before \<open>try\<close> and which cannot raise, and the body of the
  \<open>try\<close> block in the order of the source. Logging is left out.
\<close>

definition chat_body ::
  "(pystr \<Rightarrow> pystr) \<Rightarrow> ('h, 'v) environment \<Rightarrow> pystr \<Rightarrow> pystr
     \<Rightarrow> exn + pystr \<times> (pystr, 'v) pydict \<times> pystr" where
  "chat_body unicode_lower env effective_query sid =
     (let format_as_table = contains_table_request unicode_lower effective_query in
      try_bind (init_gemini_llm env (GEMINI_API_KEY env)) (\<lambda>llm.
      try_bind (init_embeddings env (GEMINI_API_KEY env)) (\<lambda>embedding.
      try_bind (load_chroma_db env embedding) (\<lambda>db.
      try_bind (as_retriever env db 5) (\<lambda>retriever.
      try_bind (create_conversational_chain env llm retriever (GOOGLE_CREDENTIALS_JSON env))
        (\<lambda>conversational_qa_chain.
      let spiritual_concept = extract_spiritual_concept unicode_lower effective_query;
          life_problem = extract_life_problem unicode_lower effective_query;
          scripture_source = extract_scripture_source unicode_lower effective_query
      in
      try_bind (invoke env conversational_qa_chain effective_query spiritual_concept
                  life_problem scripture_source sid) (\<lambda>rag_result.
      let raw_rag_answer =
            (case rag_result of
               Some a \<Rightarrow> a
             | None \<Rightarrow> str ''Could not retrieve from knowledge base.'');
          rag_answer = clean_response_text raw_rag_answer
      in
      try_bind (get_suggestions env effective_query spiritual_concept life_problem
                  scripture_source) (\<lambda>suggestions.
      try_bind (merge_groq_and_rag_answers env llm rag_answer suggestions spiritual_concept
                  life_problem scripture_source format_as_table) (\<lambda>final_answer.
      Inr (clean_response_text final_answer, suggestions, sid))))))))))"

definition handle_chat ::
  "(pystr \<Rightarrow> pystr) \<Rightarrow> ('h, 'v) environment \<Rightarrow> ChatRequest \<Rightarrow> 'v http_result" where
  "handle_chat unicode_lower env request =
     (let sid = py_or (session_id request) (str ''session_'' @ uuid4_hex env);
          effective_query = query request
      in case chat_body unicode_lower env effective_query sid of
           Inr (final_answer, suggestions, sid') \<Rightarrow> Response200 final_answer suggestions sid'
         | Inl (Exception e) \<Rightarrow> HTTPException 500 (str ''Internal server error: '' @ e))"

section \<open>Notions used in the properties\<close>

text \<open>
  The label sets of the three extractors: the keys of each table (for the scripture
  source in the capitalised form that is returned) and the default.
\<close>

definition concept_labels :: "pystr list" where
  "concept_labels = map str
     [''dharma'', ''karma'', ''moksha'', ''atman'', ''brahman'', ''yoga'', ''bhakti'',
      ''jnana'', ''seva'', ''reincarnation'', ''maya'', ''nirvana'', ''guna'', ''sanskara'',
      ''sattva'', ''rajas'', ''tamas'', ''general'']"

definition problem_labels :: "pystr list" where
  "problem_labels = map str
     [''stress'', ''anger'', ''grief'', ''purpose'', ''fear'', ''relationships'',
      ''suffering'', ''decision making'', ''materialism'', ''ego'', ''depression'',
      ''guidance'']"

definition source_labels :: "pystr list" where
  "source_labels = map str
     [''Bhagavad Gita'', ''Veda'', ''Upanishad'', ''Purana'', ''Ramayana'', ''Mahabharata'',
      ''Yoga Sutras'', ''Dharma Shastras'', ''Hatha Yoga Pradipika'', ''Shiva Sutras'',
      ''Brahma Sutras'', ''Vedanta'', ''Hindu scriptures'']"

text \<open>
  Three shapes of a text that the cleaner's steps produce: no whitespace at the start
  of a line (\<open>bol\<close> as in \<open>sub_leading_ws\<close>); no tab and no two spaces in a row; no full
  stop right before an ASCII capital.
\<close>

fun no_ws_at_bol :: "bool \<Rightarrow> pystr \<Rightarrow> bool" where
  "no_ws_at_bol bol [] = True"
| "no_ws_at_bol bol (c # cs) = (\<not> (bol \<and> is_space c) \<and> no_ws_at_bol (c = 10) cs)"

fun single_blanks :: "pystr \<Rightarrow> bool" where
  "single_blanks [] = True"
| "single_blanks [c] = (c \<noteq> 9)"
| "single_blanks (c # d # cs) = (c \<noteq> 9 \<and> \<not> (c = 32 \<and> d = 32) \<and> single_blanks (d # cs))"

fun no_dot_upper :: "pystr \<Rightarrow> bool" where
  "no_dot_upper [] = True"
| "no_dot_upper [c] = True"
| "no_dot_upper (c # d # cs) = (\<not> (c = 46 \<and> is_upper_AZ d) \<and> no_dot_upper (d # cs))"

text \<open>
  A case mapping for closed examples: it lowercases the ASCII capitals of any string.
  The queries of the examples are ASCII strings, on which \<open>lower\<close> does not consult it.
\<close>

definition example_lower :: "pystr \<Rightarrow> pystr" where
  "example_lower s = map lower_char s"

text \<open>
  An environment for concrete requests: no Groq key, the model is built with the
  configured key only, the other calls on the way to an answer return, the chain answers
  with a fixed text and the merge returns the answer of the chain.
\<close>

definition example_env :: "(unit, unit) environment" where
  "example_env =
     \<lparr>GEMINI_API_KEY = Some (str ''gemini-key''),
      GOOGLE_CREDENTIALS_JSON = None,
      GROQ_API_KEY = None,
      uuid4_hex = str ''0123456789abcdef0123456789abcdef'',
      init_gemini_llm =
        (\<lambda>key. if key = Some (str ''gemini-key'') then Inr ()
               else Inl (Exception (str ''invalid key''))),
      init_embeddings = (\<lambda>key. Inr ()),
      load_chroma_db = (\<lambda>embedding. Inr ()),
      as_retriever = (\<lambda>db k. Inr ()),
      create_conversational_chain = (\<lambda>llm retriever creds. Inr ()),
      invoke = (\<lambda>chain question concept problem source sid.
                  Inr (Some (str ''Act without attachment.Stay calm.''))),
      cached_groq_answers = (\<lambda>question key concept problem source.
                  Inl (Exception (str ''no key''))),
      merge_groq_and_rag_answers =
        (\<lambda>llm rag_answer suggestions concept problem source as_table. Inr rag_answer)\<rparr>"


text \<open>
  The seven calls that a request with query \<open>q\<close> makes on the way to its answer, with
  what they return: the model, the embedding, the database, its retriever with \<open>k = 5\<close>,
  the chain, the invocation of the chain under the session id \<open>sid\<close> with the labels of
  the query, and the merge of the cleaned answer of the chain with the suggestions.
\<close>

definition answer_calls ::
  "(pystr \<Rightarrow> pystr) \<Rightarrow> ('h, 'v) environment \<Rightarrow> pystr \<Rightarrow> pystr \<Rightarrow> (pystr, 'v) pydict
     \<Rightarrow> 'h \<Rightarrow> 'h \<Rightarrow> 'h \<Rightarrow> 'h \<Rightarrow> 'h \<Rightarrow> pystr option \<Rightarrow> pystr \<Rightarrow> bool" where
  "answer_calls unicode_lower env q sid suggestions llm embedding db retriever chain rag_result
       final_answer =
     (init_gemini_llm env (GEMINI_API_KEY env) = Inr llm
      \<and> init_embeddings env (GEMINI_API_KEY env) = Inr embedding
      \<and> load_chroma_db env embedding = Inr db
      \<and> as_retriever env db 5 = Inr retriever
      \<and> create_conversational_chain env llm retriever (GOOGLE_CREDENTIALS_JSON env) = Inr chain
      \<and> invoke env chain q (extract_spiritual_concept unicode_lower q)
            (extract_life_problem unicode_lower q) (extract_scripture_source unicode_lower q) sid
          = Inr rag_result
      \<and> merge_groq_and_rag_answers env llm
            (clean_response_text
               (case rag_result of
                  Some a \<Rightarrow> a
                | None \<Rightarrow> str ''Could not retrieve from knowledge base.''))
            suggestions (extract_spiritual_concept unicode_lower q)
            (extract_life_problem unicode_lower q) (extract_scripture_source unicode_lower q)
            (contains_table_request unicode_lower q)
          = Inr final_answer)"

section \<open>Properties of the text classifier\<close>

subsection \<open>Substring tests and the loop over a table\<close>

lemma py_in_sublist: "py_in k q = sublist k q"
  by (induction q) (simp_all add: sublist_Cons_right)

lemma any_in_iff: "any_in ks q = (\<exists>k\<in>set ks. sublist k q)"
  by (induction ks) (simp_all add: py_in_sublist)

lemma first_match_None:
  "first_match table q = None \<longleftrightarrow> (\<forall>(c, kws)\<in>set table. \<not> any_in kws q)"
  by (induction table q rule: first_match.induct) auto

lemma first_match_Some_key: "first_match table q = Some c \<Longrightarrow> c \<in> fst ` set table"
  by (induction table q rule: first_match.induct) (auto split: if_splits)

lemma first_match_nth:
  "i < length table \<Longrightarrow> any_in (snd (table ! i)) q
   \<Longrightarrow> (\<forall>j<i. \<not> any_in (snd (table ! j)) q) \<Longrightarrow> first_match table q = Some (fst (table ! i))"
proof (induction table q arbitrary: i rule: first_match.induct)
  case (1 q)
  then show ?case by simp
next
  case (2 category kws table q)
  show ?case
  proof (cases i)
    case 0
    with 2 show ?thesis by simp
  next
    case (Suc n)
    with 2 have first: "\<not> any_in kws q" by auto
    have "first_match table q = Some (fst (table ! n))"
    proof (rule 2(1) [OF first])
      show "n < length table" using 2 Suc by simp
      show "any_in (snd (table ! n)) q" using 2 Suc by simp
      show "\<forall>j<n. \<not> any_in (snd (table ! j)) q"
      proof (intro allI impI)
        fix j assume "j < n"
        then have "Suc j < i" using Suc by simp
        with 2(4) have "\<not> any_in (snd (((category, kws) # table) ! Suc j)) q" by blast
        then show "\<not> any_in (snd (table ! j)) q" by simp
      qed
    qed
    with first Suc show ?thesis by simp
  qed
qed

lemma concepts_keys: "fst ` set concepts \<subseteq> set concept_labels"
  by (simp add: concepts_def concept_labels_def)

lemma problems_keys: "fst ` set problems \<subseteq> set problem_labels"
  by (simp add: problems_def problem_labels_def)

lemma formatted_sources:
  "map (\<lambda>p. formatted_source (fst p)) sources = butlast source_labels"
  by (simp add: sources_def source_labels_def formatted_source_def str_def capitalize_def
      upper_char_def lower_def lower_char_def is_space_def)

subsection \<open>The extractors always return a label\<close>

text \<open>
  C3. For every query, each of \<open>extract_spiritual_concept\<close>, \<open>extract_life_problem\<close> and
  \<open>extract_scripture_source\<close> returns a label of its fixed finite label set (the
  functions are total: no query makes them raise), and when no keyword of any category
  of a table is a substring of the lowercased query, the result is the default
  \<open>general\<close>, \<open>guidance\<close> and \<open>Hindu scriptures\<close> respectively.
\<close>

theorem extractors_return_label:
  "extract_spiritual_concept ul q \<in> set concept_labels
   \<and> extract_life_problem ul q \<in> set problem_labels
   \<and> extract_scripture_source ul q \<in> set source_labels
   \<and> ((\<forall>(c, kws)\<in>set concepts. \<forall>k\<in>set kws. \<not> sublist k (lower ul q))
        \<longrightarrow> extract_spiritual_concept ul q = str ''general'')
   \<and> ((\<forall>(c, kws)\<in>set problems. \<forall>k\<in>set kws. \<not> sublist k (lower ul q))
        \<longrightarrow> extract_life_problem ul q = str ''guidance'')
   \<and> ((\<forall>(c, kws)\<in>set sources. \<forall>k\<in>set kws. \<not> sublist k (lower ul q))
        \<longrightarrow> extract_scripture_source ul q = str ''Hindu scriptures'')"
proof (intro conjI impI)
  show "extract_spiritual_concept ul q \<in> set concept_labels"
  proof (cases "first_match concepts (lower ul q)")
    case None
    then show ?thesis by (simp add: extract_spiritual_concept_def concept_labels_def)
  next
    case (Some c)
    then show ?thesis
      using first_match_Some_key [OF Some] concepts_keys
      by (auto simp: extract_spiritual_concept_def)
  qed
  show "extract_life_problem ul q \<in> set problem_labels"
  proof (cases "first_match problems (lower ul q)")
    case None
    then show ?thesis by (simp add: extract_life_problem_def problem_labels_def)
  next
    case (Some c)
    then show ?thesis
      using first_match_Some_key [OF Some] problems_keys
      by (auto simp: extract_life_problem_def)
  qed
  show "extract_scripture_source ul q \<in> set source_labels"
  proof (cases "first_match sources (lower ul q)")
    case None
    then show ?thesis by (simp add: extract_scripture_source_def source_labels_def)
  next
    case (Some c)
    then have "c \<in> fst ` set sources" by (rule first_match_Some_key)
    then have "formatted_source c \<in> set (map (\<lambda>p. formatted_source (fst p)) sources)"
      by auto
    then have "formatted_source c \<in> set (butlast source_labels)"
      by (simp only: formatted_sources)
    then have "formatted_source c \<in> set source_labels"
      by (rule in_set_butlastD)
    with Some show ?thesis by (simp add: extract_scripture_source_def)
  qed
next
  assume "\<forall>(c, kws)\<in>set concepts. \<forall>k\<in>set kws. \<not> sublist k (lower ul q)"
  then have "first_match concepts (lower ul q) = None"
    by (simp add: first_match_None any_in_iff)
  then show "extract_spiritual_concept ul q = str ''general''"
    by (simp add: extract_spiritual_concept_def)
next
  assume "\<forall>(c, kws)\<in>set problems. \<forall>k\<in>set kws. \<not> sublist k (lower ul q)"
  then have "first_match problems (lower ul q) = None"
    by (simp add: first_match_None any_in_iff)
  then show "extract_life_problem ul q = str ''guidance''"
    by (simp add: extract_life_problem_def)
next
  assume "\<forall>(c, kws)\<in>set sources. \<forall>k\<in>set kws. \<not> sublist k (lower ul q)"
  then have "first_match sources (lower ul q) = None"
    by (simp add: first_match_None any_in_iff)
  then show "extract_scripture_source ul q = str ''Hindu scriptures''"
    by (simp add: extract_scripture_source_def)
qed

theorem extractors_return_label_witness:
  "\<not> (\<exists>(c, kws)\<in>set concepts. \<exists>k\<in>set kws. sublist k (lower example_lower (str ''Hello World'')))
   \<and> \<not> (\<exists>(c, kws)\<in>set problems. \<exists>k\<in>set kws. sublist k (lower example_lower (str ''Hello World'')))
   \<and> \<not> (\<exists>(c, kws)\<in>set sources. \<exists>k\<in>set kws. sublist k (lower example_lower (str ''Hello World'')))
   \<and> extract_spiritual_concept example_lower (str ''Hello World'') = str ''general''
   \<and> extract_life_problem example_lower (str ''Hello World'') = str ''guidance''
   \<and> extract_scripture_source example_lower (str ''Hello World'') = str ''Hindu scriptures''"
proof -
  have h1: "\<forall>(c, kws)\<in>set concepts. \<forall>k\<in>set kws. \<not> sublist k (lower example_lower (str ''Hello World''))"
    by (simp add: concepts_def py_in_sublist [symmetric] str_def lower_def lower_char_def)
  have h2: "\<forall>(c, kws)\<in>set problems. \<forall>k\<in>set kws. \<not> sublist k (lower example_lower (str ''Hello World''))"
    by (simp add: problems_def py_in_sublist [symmetric] str_def lower_def lower_char_def)
  have h3: "\<forall>(c, kws)\<in>set sources. \<forall>k\<in>set kws. \<not> sublist k (lower example_lower (str ''Hello World''))"
    by (simp add: sources_def py_in_sublist [symmetric] str_def lower_def lower_char_def)
  show ?thesis using h1 h2 h3 extractors_return_label [where ul = example_lower and q = "str ''Hello World''"] by blast
qed

subsection \<open>The earliest category wins\<close>

lemma less_one_all: "(\<forall>j<Suc 0. P j) = P 0"
  by auto

lemma first_match_hit:
  assumes "(c, kws) \<in> set table" and "k \<in> set kws" and "q = pre @ k @ post"
  shows "\<exists>r. first_match table q = Some r"
proof -
  have "sublist k q" using assms(3) by (auto simp: sublist_def)
  with assms(2) have "any_in kws q" by (auto simp: any_in_iff)
  with assms(1) have "first_match table q \<noteq> None"
    unfolding first_match_None by blast
  then show ?thesis by blast
qed

text \<open>
  C4. The extractors go through their table in the order of its declaration and return
  the first category one of whose keywords is a substring of the lowercased query: when
  the category at index \<open>i\<close> has such a keyword and no category before it has one, the
  result is the key of that category (for the scripture source, in its capitalised
  form), whatever the later categories contain.
\<close>

theorem extractors_first_category_in_order:
  "(i < length concepts \<and> (\<exists>k\<in>set (snd (concepts ! i)). sublist k (lower ul q))
      \<and> (\<forall>j<i. \<forall>k\<in>set (snd (concepts ! j)). \<not> sublist k (lower ul q))
     \<longrightarrow> extract_spiritual_concept ul q = fst (concepts ! i))
   \<and> (i' < length problems \<and> (\<exists>k\<in>set (snd (problems ! i')). sublist k (lower ul q))
      \<and> (\<forall>j<i'. \<forall>k\<in>set (snd (problems ! j)). \<not> sublist k (lower ul q))
     \<longrightarrow> extract_life_problem ul q = fst (problems ! i'))
   \<and> (i'' < length sources \<and> (\<exists>k\<in>set (snd (sources ! i'')). sublist k (lower ul q))
      \<and> (\<forall>j<i''. \<forall>k\<in>set (snd (sources ! j)). \<not> sublist k (lower ul q))
     \<longrightarrow> extract_scripture_source ul q = formatted_source (fst (sources ! i'')))"
proof (intro conjI impI)
  assume "i < length concepts \<and> (\<exists>k\<in>set (snd (concepts ! i)). sublist k (lower ul q))
      \<and> (\<forall>j<i. \<forall>k\<in>set (snd (concepts ! j)). \<not> sublist k (lower ul q))"
  then have "first_match concepts (lower ul q) = Some (fst (concepts ! i))"
    by (intro first_match_nth) (simp_all add: any_in_iff)
  then show "extract_spiritual_concept ul q = fst (concepts ! i)"
    by (simp add: extract_spiritual_concept_def)
next
  assume "i' < length problems \<and> (\<exists>k\<in>set (snd (problems ! i')). sublist k (lower ul q))
      \<and> (\<forall>j<i'. \<forall>k\<in>set (snd (problems ! j)). \<not> sublist k (lower ul q))"
  then have "first_match problems (lower ul q) = Some (fst (problems ! i'))"
    by (intro first_match_nth) (simp_all add: any_in_iff)
  then show "extract_life_problem ul q = fst (problems ! i')"
    by (simp add: extract_life_problem_def)
next
  assume "i'' < length sources \<and> (\<exists>k\<in>set (snd (sources ! i'')). sublist k (lower ul q))
      \<and> (\<forall>j<i''. \<forall>k\<in>set (snd (sources ! j)). \<not> sublist k (lower ul q))"
  then have "first_match sources (lower ul q) = Some (fst (sources ! i''))"
    by (intro first_match_nth) (simp_all add: any_in_iff)
  then show "extract_scripture_source ul q = formatted_source (fst (sources ! i''))"
    by (simp add: extract_scripture_source_def)
qed

theorem extractors_first_category_in_order_witness:
  "(Suc 0 < length concepts
      \<and> (\<exists>k\<in>set (snd (concepts ! Suc 0)). sublist k (lower example_lower (str ''Karma, anger and fear in the Vedas and Puranas'')))
      \<and> \<not> (\<exists>j<Suc 0. \<exists>k\<in>set (snd (concepts ! j)). sublist k (lower example_lower (str ''Karma, anger and fear in the Vedas and Puranas''))))
   \<and> (Suc 0 < length problems
      \<and> (\<exists>k\<in>set (snd (problems ! Suc 0)). sublist k (lower example_lower (str ''Karma, anger and fear in the Vedas and Puranas'')))
      \<and> \<not> (\<exists>j<Suc 0. \<exists>k\<in>set (snd (problems ! j)). sublist k (lower example_lower (str ''Karma, anger and fear in the Vedas and Puranas''))))
   \<and> (Suc 0 < length sources
      \<and> (\<exists>k\<in>set (snd (sources ! Suc 0)). sublist k (lower example_lower (str ''Karma, anger and fear in the Vedas and Puranas'')))
      \<and> \<not> (\<exists>j<Suc 0. \<exists>k\<in>set (snd (sources ! j)). sublist k (lower example_lower (str ''Karma, anger and fear in the Vedas and Puranas''))))
   \<and> extract_spiritual_concept example_lower (str ''Karma, anger and fear in the Vedas and Puranas'') = str ''karma''
   \<and> extract_life_problem example_lower (str ''Karma, anger and fear in the Vedas and Puranas'') = str ''anger''
   \<and> extract_scripture_source example_lower (str ''Karma, anger and fear in the Vedas and Puranas'') = str ''Veda''"
proof -
  let ?q = "str ''Karma, anger and fear in the Vedas and Puranas''"
  have h1: "Suc 0 < length concepts
      \<and> (\<exists>k\<in>set (snd (concepts ! Suc 0)). sublist k (lower example_lower ?q))
      \<and> (\<forall>j<Suc 0. \<forall>k\<in>set (snd (concepts ! j)). \<not> sublist k (lower example_lower ?q))"
    by (simp add: less_one_all concepts_def py_in_sublist [symmetric] str_def lower_def lower_char_def)
  have h2: "Suc 0 < length problems
      \<and> (\<exists>k\<in>set (snd (problems ! Suc 0)). sublist k (lower example_lower ?q))
      \<and> (\<forall>j<Suc 0. \<forall>k\<in>set (snd (problems ! j)). \<not> sublist k (lower example_lower ?q))"
    by (simp add: less_one_all problems_def py_in_sublist [symmetric] str_def lower_def lower_char_def)
  have h3: "Suc 0 < length sources
      \<and> (\<exists>k\<in>set (snd (sources ! Suc 0)). sublist k (lower example_lower ?q))
      \<and> (\<forall>j<Suc 0. \<forall>k\<in>set (snd (sources ! j)). \<not> sublist k (lower example_lower ?q))"
    by (simp add: less_one_all sources_def py_in_sublist [symmetric] str_def lower_def lower_char_def)
  have k1: "fst (concepts ! Suc 0) = str ''karma''" by (simp add: concepts_def)
  have k2: "fst (problems ! Suc 0) = str ''anger''" by (simp add: problems_def)
  have k3: "formatted_source (fst (sources ! Suc 0)) = str ''Veda''"
    by (simp add: sources_def formatted_source_def str_def capitalize_def upper_char_def
        lower_def lower_char_def is_space_def)
  show ?thesis
    using h1 h2 h3 k1 k2 k3 extractors_first_category_in_order
        [where ul = example_lower and q = ?q and i = "Suc 0" and i' = "Suc 0" and i'' = "Suc 0"] by simp
qed

subsection \<open>Greetings and formatting requests\<close>

lemmas eval_query = clean_query_def str_def lower_def lower_char_def is_space_def
  is_punctuation_def strip_def Let_def

lemma clean_query_Nil: "clean_query ul [] = []"
  by (simp add: clean_query_def strip_def lower_def)

lemma Nil_not_greeting: "[] \<notin> set GREETINGS"
  by (simp add: GREETINGS_def str_def)

lemma Nil_no_formatting: "\<not> any_in FORMATTING_KEYWORDS []"
  by (simp add: FORMATTING_KEYWORDS_def str_def)

text \<open>
  C5. \<open>is_greeting\<close> holds exactly when the cleaned query (punctuation deleted, stripped,
  lowercased) is one of the greeting phrases, has at most three words and contains no
  task keyword as a substring. \<open>is_greeting("hello")\<close> is true and
  \<open>is_greeting("hello, what is karma")\<close> is false.
\<close>

theorem is_greeting_iff:
  "(is_greeting ul q \<longleftrightarrow>
      clean_query ul q \<in> set GREETINGS \<and> length (split (clean_query ul q)) \<le> 3
      \<and> \<not> (\<exists>k\<in>set TASK_KEYWORDS. sublist k (clean_query ul q)))
   \<and> is_greeting ul (str ''hello'')
   \<and> \<not> is_greeting ul (str ''hello, what is karma'')"
proof (intro conjI)
  show "is_greeting ul q \<longleftrightarrow>
      clean_query ul q \<in> set GREETINGS \<and> length (split (clean_query ul q)) \<le> 3
      \<and> \<not> (\<exists>k\<in>set TASK_KEYWORDS. sublist k (clean_query ul q))"
  proof (cases "q = []")
    case True
    then show ?thesis
      using Nil_not_greeting by (simp add: is_greeting_def clean_query_Nil)
  next
    case False
    then show ?thesis
      by (simp add: is_greeting_def Let_def any_in_iff)
  qed
  show "is_greeting ul (str ''hello'')"
    by (simp add: is_greeting_def GREETINGS_def TASK_KEYWORDS_def eval_query)
  show "\<not> is_greeting ul (str ''hello, what is karma'')"
    by (simp add: is_greeting_def GREETINGS_def TASK_KEYWORDS_def eval_query)
qed

theorem is_greeting_iff_witness:
  "clean_query example_lower (str '' Namaste! '') \<in> set GREETINGS
   \<and> length (split (clean_query example_lower (str '' Namaste! ''))) \<le> 3
   \<and> \<not> (\<exists>k\<in>set TASK_KEYWORDS. sublist k (clean_query example_lower (str '' Namaste! '')))
   \<and> is_greeting example_lower (str '' Namaste! '')"
proof -
  have c: "clean_query example_lower (str '' Namaste! '') = str ''namaste''"
    by (simp add: eval_query)
  have h1: "clean_query example_lower (str '' Namaste! '') \<in> set GREETINGS"
    unfolding c by (simp add: GREETINGS_def)
  have h2: "length (split (clean_query example_lower (str '' Namaste! ''))) \<le> 3"
    unfolding c by (simp add: str_def is_space_def)
  have h3: "\<not> (\<exists>k\<in>set TASK_KEYWORDS. sublist k (clean_query example_lower (str '' Namaste! '')))"
    unfolding c by (simp add: TASK_KEYWORDS_def py_in_sublist [symmetric] str_def)
  show ?thesis using h1 h2 h3 is_greeting_iff [where ul = example_lower and q = "str '' Namaste! ''"] by blast
qed

text \<open>
  C6. \<open>is_formatting_request\<close> holds exactly when the cleaned query contains a formatting
  keyword as a substring and at most one of its words is neither a formatting keyword nor
  a filler word. It is true for \<open>show it in a table\<close> and false for
  \<open>show me the bhagavad gita's view on karma in a table\<close>.
\<close>

theorem is_formatting_request_iff:
  "(is_formatting_request ul q \<longleftrightarrow>
      (\<exists>k\<in>set FORMATTING_KEYWORDS. sublist k (clean_query ul q))
      \<and> length (filter (\<lambda>w. w \<notin> set FORMATTING_KEYWORDS \<and> w \<notin> set filler_words)
            (split (clean_query ul q))) \<le> 1)
   \<and> is_formatting_request ul (str ''show it in a table'')
   \<and> \<not> is_formatting_request ul (str ''show me the bhagavad gita's view on karma in a table'')"
proof (intro conjI)
  show "is_formatting_request ul q \<longleftrightarrow>
      (\<exists>k\<in>set FORMATTING_KEYWORDS. sublist k (clean_query ul q))
      \<and> length (filter (\<lambda>w. w \<notin> set FORMATTING_KEYWORDS \<and> w \<notin> set filler_words)
            (split (clean_query ul q))) \<le> 1"
  proof (cases "q = []")
    case True
    then show ?thesis
      using Nil_no_formatting
      by (simp add: is_formatting_request_def clean_query_Nil any_in_iff)
  next
    case False
    then show ?thesis
      by (simp add: is_formatting_request_def Let_def any_in_iff)
  qed
  show "is_formatting_request ul (str ''show it in a table'')"
    by (simp add: is_formatting_request_def FORMATTING_KEYWORDS_def filler_words_def eval_query)
  show "\<not> is_formatting_request ul (str ''show me the bhagavad gita's view on karma in a table'')"
    by (simp add: is_formatting_request_def FORMATTING_KEYWORDS_def filler_words_def eval_query)
qed

theorem is_formatting_request_iff_witness:
  "(\<exists>k\<in>set FORMATTING_KEYWORDS. sublist k (clean_query example_lower (str ''Please give me a karma chart!'')))
   \<and> length (filter (\<lambda>w. w \<notin> set FORMATTING_KEYWORDS \<and> w \<notin> set filler_words)
        (split (clean_query example_lower (str ''Please give me a karma chart!'')))) \<le> 1
   \<and> is_formatting_request example_lower (str ''Please give me a karma chart!'')"
proof -
  have c: "clean_query example_lower (str ''Please give me a karma chart!'') = str ''please give me a karma chart''"
    by (simp add: eval_query)
  have h1: "\<exists>k\<in>set FORMATTING_KEYWORDS. sublist k (clean_query example_lower (str ''Please give me a karma chart!''))"
    unfolding c by (simp add: FORMATTING_KEYWORDS_def py_in_sublist [symmetric] str_def)
  have h2: "length (filter (\<lambda>w. w \<notin> set FORMATTING_KEYWORDS \<and> w \<notin> set filler_words)
        (split (clean_query example_lower (str ''Please give me a karma chart!'')))) \<le> 1"
    unfolding c by (simp add: FORMATTING_KEYWORDS_def filler_words_def str_def is_space_def)
  show ?thesis using h1 h2 is_formatting_request_iff
      [where ul = example_lower and q = "str ''Please give me a karma chart!''"] by blast
qed

subsection \<open>Keywords match inside longer words\<close>

lemma occurs_py_in: "(\<exists>pre post. q = pre @ k @ post) = py_in k q"
  by (simp add: py_in_sublist sublist_def)

lemma any_in_occurs: "any_in ks q = (\<exists>k\<in>set ks. \<exists>pre post. q = pre @ k @ post)"
  by (simp add: any_in_iff sublist_def)

lemma first_match_Some_hit:
  "first_match table q = Some c \<Longrightarrow> \<exists>kws. (c, kws) \<in> set table \<and> any_in kws q"
  by (induction table q rule: first_match.induct) (auto split: if_splits)

lemma first_match_Some_iff:
  "(\<exists>c. first_match table q = Some c)
     = (\<exists>(c, kws)\<in>set table. \<exists>k\<in>set kws. \<exists>pre post. q = pre @ k @ post)"
proof -
  have "(\<exists>c. first_match table q = Some c) = (first_match table q \<noteq> None)" by auto
  also have "\<dots> = (\<exists>(c, kws)\<in>set table. any_in kws q)"
    unfolding first_match_None by auto
  finally show ?thesis by (simp add: any_in_occurs)
qed

lemma member_differs: "x \<in> A \<Longrightarrow> d \<notin> A \<Longrightarrow> x \<noteq> d"
  by blast

lemma key_formatted: "c \<in> fst ` S \<Longrightarrow> f c \<in> (\<lambda>p. f (fst p)) ` S"
  by auto

lemma general_no_key: "str ''general'' \<notin> fst ` set concepts"
  by (simp add: concepts_def str_def)

lemma guidance_no_key: "str ''guidance'' \<notin> fst ` set problems"
  by (simp add: problems_def str_def)

lemma hindu_scriptures_no_key:
  "str ''Hindu scriptures'' \<notin> (\<lambda>p. formatted_source (fst p)) ` set sources"
proof -
  have a: "str ''Hindu scriptures'' \<notin> set (butlast source_labels)"
    by (simp add: source_labels_def str_def)
  have b: "(\<lambda>p. formatted_source (fst p)) ` set sources = set (butlast source_labels)"
    using formatted_sources by (metis set_map)
  show ?thesis unfolding b by (rule a)
qed

text \<open>
  C10. The classifiers and \<open>contains_table_request\<close> test raw substrings of the lowercased
  query, not whole words. \<open>contains_table_request\<close> is true exactly when the lowercased
  query is \<open>pre @ k @ post\<close> for a formatting keyword \<open>k\<close>, with any text \<open>pre\<close> and \<open>post\<close>
  around it, letters too. Each extractor returns a label other than its default exactly
  when a keyword of its table occurs in this way, and the label is then a category that
  has such a keyword. So \<open>extract_life_problem("dangerous")\<close> is \<open>anger\<close>, and a query
  with the word \<open>stable\<close> asks for a table, while one without a formatting keyword in it
  does not.
\<close>

theorem keywords_match_inside_words:
  "(contains_table_request ul q
      \<longleftrightarrow> (\<exists>k\<in>set FORMATTING_KEYWORDS. \<exists>pre post. lower ul q = pre @ k @ post))
   \<and> (extract_life_problem ul q \<noteq> str ''guidance''
      \<longleftrightarrow> (\<exists>(c, kws)\<in>set problems. \<exists>k\<in>set kws. \<exists>pre post. lower ul q = pre @ k @ post))
   \<and> (extract_spiritual_concept ul q \<noteq> str ''general''
      \<longleftrightarrow> (\<exists>(c, kws)\<in>set concepts. \<exists>k\<in>set kws. \<exists>pre post. lower ul q = pre @ k @ post))
   \<and> (extract_scripture_source ul q \<noteq> str ''Hindu scriptures''
      \<longleftrightarrow> (\<exists>(c, kws)\<in>set sources. \<exists>k\<in>set kws. \<exists>pre post. lower ul q = pre @ k @ post))
   \<and> (extract_life_problem ul q \<noteq> str ''guidance''
      \<longrightarrow> (\<exists>(c, kws)\<in>set problems. extract_life_problem ul q = c
            \<and> (\<exists>k\<in>set kws. \<exists>pre post. lower ul q = pre @ k @ post)))
   \<and> (extract_spiritual_concept ul q \<noteq> str ''general''
      \<longrightarrow> (\<exists>(c, kws)\<in>set concepts. extract_spiritual_concept ul q = c
            \<and> (\<exists>k\<in>set kws. \<exists>pre post. lower ul q = pre @ k @ post)))
   \<and> (extract_scripture_source ul q \<noteq> str ''Hindu scriptures''
      \<longrightarrow> (\<exists>(c, kws)\<in>set sources. extract_scripture_source ul q = formatted_source c
            \<and> (\<exists>k\<in>set kws. \<exists>pre post. lower ul q = pre @ k @ post)))
   \<and> extract_life_problem ul (str ''dangerous'') = str ''anger''
   \<and> contains_table_request ul (str ''a stable home'')
   \<and> \<not> contains_table_request ul (str ''a steady home'')"
proof (intro conjI)
  show "contains_table_request ul q
      \<longleftrightarrow> (\<exists>k\<in>set FORMATTING_KEYWORDS. \<exists>pre post. lower ul q = pre @ k @ post)"
    by (simp add: contains_table_request_def any_in_occurs)
next
  show "extract_life_problem ul q \<noteq> str ''guidance''
      \<longleftrightarrow> (\<exists>(c, kws)\<in>set problems. \<exists>k\<in>set kws. \<exists>pre post. lower ul q = pre @ k @ post)"
  proof (cases "first_match problems (lower ul q)")
    case None
    then show ?thesis
      using first_match_Some_iff [of problems "lower ul q"]
      by (simp add: extract_life_problem_def)
  next
    case (Some c)
    have "c \<noteq> str ''guidance''"
      by (rule member_differs [OF first_match_Some_key [OF Some] guidance_no_key])
    then show ?thesis
      using Some first_match_Some_iff [of problems "lower ul q"]
      by (simp add: extract_life_problem_def)
  qed
next
  show "extract_spiritual_concept ul q \<noteq> str ''general''
      \<longleftrightarrow> (\<exists>(c, kws)\<in>set concepts. \<exists>k\<in>set kws. \<exists>pre post. lower ul q = pre @ k @ post)"
  proof (cases "first_match concepts (lower ul q)")
    case None
    then show ?thesis
      using first_match_Some_iff [of concepts "lower ul q"]
      by (simp add: extract_spiritual_concept_def)
  next
    case (Some c)
    have "c \<noteq> str ''general''"
      by (rule member_differs [OF first_match_Some_key [OF Some] general_no_key])
    then show ?thesis
      using Some first_match_Some_iff [of concepts "lower ul q"]
      by (simp add: extract_spiritual_concept_def)
  qed
next
  show "extract_scripture_source ul q \<noteq> str ''Hindu scriptures''
      \<longleftrightarrow> (\<exists>(c, kws)\<in>set sources. \<exists>k\<in>set kws. \<exists>pre post. lower ul q = pre @ k @ post)"
  proof (cases "first_match sources (lower ul q)")
    case None
    then show ?thesis
      using first_match_Some_iff [of sources "lower ul q"]
      by (simp add: extract_scripture_source_def)
  next
    case (Some c)
    have "formatted_source c \<noteq> str ''Hindu scriptures''"
      by (rule member_differs
          [OF key_formatted [OF first_match_Some_key [OF Some]] hindu_scriptures_no_key])
    then show ?thesis
      using Some first_match_Some_iff [of sources "lower ul q"]
      by (simp add: extract_scripture_source_def)
  qed
next
  show "extract_life_problem ul q \<noteq> str ''guidance''
      \<longrightarrow> (\<exists>(c, kws)\<in>set problems. extract_life_problem ul q = c
            \<and> (\<exists>k\<in>set kws. \<exists>pre post. lower ul q = pre @ k @ post))"
  proof (cases "first_match problems (lower ul q)")
    case None
    then show ?thesis by (simp add: extract_life_problem_def)
  next
    case (Some c)
    then obtain kws where "(c, kws) \<in> set problems" "any_in kws (lower ul q)"
      using first_match_Some_hit by blast
    then show ?thesis
      using Some by (auto simp: extract_life_problem_def any_in_occurs)
  qed
next
  show "extract_spiritual_concept ul q \<noteq> str ''general''
      \<longrightarrow> (\<exists>(c, kws)\<in>set concepts. extract_spiritual_concept ul q = c
            \<and> (\<exists>k\<in>set kws. \<exists>pre post. lower ul q = pre @ k @ post))"
  proof (cases "first_match concepts (lower ul q)")
    case None
    then show ?thesis by (simp add: extract_spiritual_concept_def)
  next
    case (Some c)
    then obtain kws where "(c, kws) \<in> set concepts" "any_in kws (lower ul q)"
      using first_match_Some_hit by blast
    then show ?thesis
      using Some by (auto simp: extract_spiritual_concept_def any_in_occurs)
  qed
next
  show "extract_scripture_source ul q \<noteq> str ''Hindu scriptures''
      \<longrightarrow> (\<exists>(c, kws)\<in>set sources. extract_scripture_source ul q = formatted_source c
            \<and> (\<exists>k\<in>set kws. \<exists>pre post. lower ul q = pre @ k @ post))"
  proof (cases "first_match sources (lower ul q)")
    case None
    then show ?thesis by (simp add: extract_scripture_source_def)
  next
    case (Some c)
    then obtain kws where "(c, kws) \<in> set sources" "any_in kws (lower ul q)"
      using first_match_Some_hit by blast
    then show ?thesis
      using Some by (auto simp: extract_scripture_source_def any_in_occurs)
  qed
next
  show "extract_life_problem ul (str ''dangerous'') = str ''anger''"
    by (simp add: extract_life_problem_def problems_def str_def lower_def lower_char_def)
  show "contains_table_request ul (str ''a stable home'')"
    by (simp add: contains_table_request_def FORMATTING_KEYWORDS_def str_def lower_def
        lower_char_def)
  show "\<not> contains_table_request ul (str ''a steady home'')"
    by (simp add: contains_table_request_def FORMATTING_KEYWORDS_def str_def lower_def
        lower_char_def)
qed

theorem keywords_match_inside_words_witness:
  "(\<exists>k\<in>set FORMATTING_KEYWORDS. \<exists>pre post.
       lower example_lower (str ''Dangerous selfish vedantas, stable'') = pre @ k @ post)
   \<and> (\<exists>(c, kws)\<in>set problems. \<exists>k\<in>set kws. \<exists>pre post.
       lower example_lower (str ''Dangerous selfish vedantas, stable'') = pre @ k @ post)
   \<and> (\<exists>(c, kws)\<in>set concepts. \<exists>k\<in>set kws. \<exists>pre post.
       lower example_lower (str ''Dangerous selfish vedantas, stable'') = pre @ k @ post)
   \<and> (\<exists>(c, kws)\<in>set sources. \<exists>k\<in>set kws. \<exists>pre post.
       lower example_lower (str ''Dangerous selfish vedantas, stable'') = pre @ k @ post)
   \<and> contains_table_request example_lower (str ''Dangerous selfish vedantas, stable'')
   \<and> extract_life_problem example_lower (str ''Dangerous selfish vedantas, stable'')
        \<noteq> str ''guidance''
   \<and> extract_spiritual_concept example_lower (str ''Dangerous selfish vedantas, stable'')
        \<noteq> str ''general''
   \<and> extract_scripture_source example_lower (str ''Dangerous selfish vedantas, stable'')
        \<noteq> str ''Hindu scriptures''"
proof -
  let ?q = "lower example_lower (str ''Dangerous selfish vedantas, stable'')"
  have q: "?q = str ''dangerous selfish vedantas, stable''"
    by (simp add: str_def lower_def lower_char_def)
  have h1: "\<exists>k\<in>set FORMATTING_KEYWORDS. \<exists>pre post. ?q = pre @ k @ post"
    unfolding q by (simp add: occurs_py_in FORMATTING_KEYWORDS_def str_def)
  have h2: "\<exists>(c, kws)\<in>set problems. \<exists>k\<in>set kws. \<exists>pre post. ?q = pre @ k @ post"
    unfolding q by (simp add: occurs_py_in problems_def str_def)
  have h3: "\<exists>(c, kws)\<in>set concepts. \<exists>k\<in>set kws. \<exists>pre post. ?q = pre @ k @ post"
    unfolding q by (simp add: occurs_py_in concepts_def str_def)
  have h4: "\<exists>(c, kws)\<in>set sources. \<exists>k\<in>set kws. \<exists>pre post. ?q = pre @ k @ post"
    unfolding q by (simp add: occurs_py_in sources_def str_def)
  show ?thesis
    using h1 h2 h3 h4
      keywords_match_inside_words
        [where ul = example_lower and q = "str ''Dangerous selfish vedantas, stable''"]
    by blast
qed

section \<open>Properties of the response cleaner\<close>

subsection \<open>Cleaning a dict of suggestions\<close>

lemma dict_set_fresh: "key \<notin> fst ` set d \<Longrightarrow> dict_set key v d = d @ [(key, v)]"
  by (induction d) auto

lemma clean_suggestions_loop_distinct:
  "distinct (map fst items) \<Longrightarrow> fst ` set items \<inter> fst ` set cleaned = {}
   \<Longrightarrow> clean_suggestions_loop items cleaned =
       cleaned @ map (\<lambda>(key, val). (key, case val of PStr s \<Rightarrow> PStr (clean_response_text s)
                                                  | POther x \<Rightarrow> POther x)) items"
proof (induction items cleaned rule: clean_suggestions_loop.induct)
  case (1 cleaned)
  then show ?case by simp
next
  case (2 key val items cleaned)
  let ?v = "case val of PStr s \<Rightarrow> PStr (clean_response_text s) | POther x \<Rightarrow> POther x"
  have fresh: "key \<notin> fst ` set cleaned" using 2(3) by auto
  have step: "(case val of
          PStr s \<Rightarrow> dict_set key (PStr (clean_response_text s)) cleaned
        | POther x \<Rightarrow> dict_set key (POther x) cleaned) = cleaned @ [(key, ?v)]"
    using fresh by (cases val) (simp_all add: dict_set_fresh)
  have d: "distinct (map fst items)" using 2(2) by simp
  have disj: "fst ` set items \<inter> fst ` set (cleaned @ [(key, ?v)]) = {}"
    using 2(2) 2(3) by auto
  have "clean_suggestions_loop items (cleaned @ [(key, ?v)]) =
      (cleaned @ [(key, ?v)]) @ map (\<lambda>(key, val). (key, case val of PStr s \<Rightarrow> PStr (clean_response_text s)
                                                  | POther x \<Rightarrow> POther x)) items"
    using 2(1) d disj step by simp
  then show ?case using step by simp
qed

text \<open>
  C9. For a dict (an association list with distinct keys), \<open>clean_suggestions\<close> returns
  the dict with the same keys, in which every string value is replaced by its
  \<open>clean_response_text\<close> and every other value is kept as it is. In particular
  \<open>clean_suggestions({"a": "**x***", "b": 1})\<close> is \<open>{"a": "**x**", "b": 1}\<close>.
\<close>

theorem clean_suggestions_maps_values:
  "(distinct (map fst d) \<longrightarrow>
      clean_suggestions d =
        map (\<lambda>(key, val). (key, case val of PStr s \<Rightarrow> PStr (clean_response_text s)
                                          | POther x \<Rightarrow> POther x)) d
      \<and> map fst (clean_suggestions d) = map fst d)
   \<and> clean_suggestions [(str ''a'', PStr (str ''**x***'')), (str ''b'', POther (1::int))]
       = [(str ''a'', PStr (str ''**x**'')), (str ''b'', POther 1)]"
proof (intro conjI impI)
  assume d: "distinct (map fst d)"
  then show eq: "clean_suggestions d =
        map (\<lambda>(key, val). (key, case val of PStr s \<Rightarrow> PStr (clean_response_text s)
                                          | POther x \<Rightarrow> POther x)) d"
    using clean_suggestions_loop_distinct [of d "[]"] by (simp add: clean_suggestions_def)
  show "map fst (clean_suggestions d) = map fst d"
    unfolding eq by (induction d) auto
next
  have c: "clean_response_text (str ''**x***'') = str ''**x**''"
    by (simp add: clean_response_text_def replace_def str_def bullet_def is_space_def
        is_blank_def is_upper_AZ_def strip_def Let_def upto_last_newline_def)
  show "clean_suggestions [(str ''a'', PStr (str ''**x***'')), (str ''b'', POther (1::int))]
       = [(str ''a'', PStr (str ''**x**'')), (str ''b'', POther 1)]"
    by (simp add: clean_suggestions_def c) (simp add: str_def)
qed

theorem clean_suggestions_maps_values_witness:
  "distinct (map fst [(str ''llama'', PStr (str ''a****b'')), (str ''gemma'', POther True)])
   \<and> clean_suggestions [(str ''llama'', PStr (str ''a****b'')), (str ''gemma'', POther True)]
       = [(str ''llama'', PStr (str ''a***b'')), (str ''gemma'', POther True)]"
proof -
  have h: "distinct (map fst [(str ''llama'', PStr (str ''a****b'')), (str ''gemma'', POther True)])"
    by (simp add: str_def)
  have c: "clean_response_text (str ''a****b'') = str ''a***b''"
    by (simp add: clean_response_text_def replace_def str_def bullet_def is_space_def
        is_blank_def is_upper_AZ_def strip_def Let_def upto_last_newline_def)
  show ?thesis
    using h c clean_suggestions_maps_values [of "[(str ''llama'', PStr (str ''a****b'')), (str ''gemma'', POther True)]"]
    by simp
qed

subsection \<open>Runs of asterisks\<close>

text \<open>
  C2. A run of three or of five asterisks becomes two asterisks, but a run of four in
  the middle of a line does not: \<open>replace('***', '**')\<close> runs first and turns the four
  into three, which \<open>replace('****', '**')\<close> and the later steps do not touch.
  \<open>clean_response_text("a****b")\<close> is \<open>a***b\<close>.
\<close>

theorem clean_response_text_four_asterisks:
  "clean_response_text (str ''a****b'') = str ''a***b''
   \<and> clean_response_text (str ''a***b'') = str ''a**b''
   \<and> clean_response_text (str ''a*****b'') = str ''a**b''"
  by (simp add: clean_response_text_def replace_def str_def bullet_def is_space_def
      is_blank_def is_upper_AZ_def strip_def Let_def upto_last_newline_def)

subsection \<open>Texts without an asterisk\<close>

lemma replace_from_no_star: "42 \<notin> set s \<Longrightarrow> replace_from (42 # old) new s = s"
  by (induction s) auto

lemma replace_no_star: "42 \<notin> set s \<Longrightarrow> replace (42 # old) new s = s"
  by (simp add: replace_def replace_from_no_star)

lemma sub_bullet_no_star: "42 \<notin> set s \<Longrightarrow> sub_bullet bol s = s"
  by (induction bol s rule: sub_bullet.induct) auto

lemma sub_empty_bold_no_star: "42 \<notin> set s \<Longrightarrow> sub_empty_bold s = s"
  by (induction s rule: sub_empty_bold.induct) auto

lemma sub_bold_tail_no_star: "42 \<notin> set s \<Longrightarrow> sub_bold_tail s = s"
  by (induction s rule: sub_bold_tail.induct) (auto simp: Let_def)

lemma sub_blank_lines_no_star: "42 \<notin> set s \<Longrightarrow> 42 \<notin> set (sub_blank_lines s)"
proof (induction s rule: sub_blank_lines.induct)
  case 1
  then show ?case by simp
next
  case (2 c cs)
  have "42 \<notin> set (drop n cs)" for n
    using 2(3) by (auto dest: in_set_dropD)
  with 2 show ?case by auto
qed

lemma sub_blanks_no_star: "42 \<notin> set s \<Longrightarrow> 42 \<notin> set (sub_blanks s)"
proof (induction s rule: sub_blanks.induct)
  case 1
  then show ?case by simp
next
  case (2 c cs)
  have "42 \<notin> set (dropWhile is_blank cs)"
    using 2(3) by (auto dest: set_dropWhileD)
  with 2 show ?case by auto
qed

lemma sub_leading_ws_no_star: "42 \<notin> set s \<Longrightarrow> 42 \<notin> set (sub_leading_ws bol s)"
proof (induction bol s rule: sub_leading_ws.induct)
  case (1 bol)
  then show ?case by simp
next
  case (2 bol c cs)
  have "42 \<notin> set (dropWhile is_space cs)"
    using 2(3) by (auto dest: set_dropWhileD)
  with 2 show ?case by auto
qed

lemma sub_sentence_no_star: "42 \<notin> set s \<Longrightarrow> 42 \<notin> set (sub_sentence s)"
  by (induction s rule: sub_sentence.induct) auto

lemma strip_subset: "set (strip s) \<subseteq> set s"
proof -
  have "set (strip s) \<subseteq> set (dropWhile is_space s)"
    unfolding strip_def using set_dropWhileD [of _ is_space "rev (dropWhile is_space s)"]
    by auto
  then show ?thesis using set_dropWhileD [of _ is_space s] by blast
qed

subsection \<open>No whitespace at the start of a line\<close>

lemma no_ws_at_bol_flag:
  "s = [] \<or> \<not> is_space (hd s) \<Longrightarrow> no_ws_at_bol b s = no_ws_at_bol b' s"
  by (cases s) auto

lemma no_ws_at_bol_prefix: "no_ws_at_bol b (xs @ ys) \<Longrightarrow> no_ws_at_bol b xs"
  by (induction xs arbitrary: b) auto

lemma dropWhile_head: "dropWhile P xs = [] \<or> \<not> P (hd (dropWhile P xs))"
  using hd_dropWhile [of P xs] by blast

lemma sub_leading_ws_head:
  "s = [] \<or> \<not> is_space (hd s)
   \<Longrightarrow> sub_leading_ws b s = [] \<or> \<not> is_space (hd (sub_leading_ws b s))"
  by (cases s) auto

lemma sub_leading_ws_no_ws: "no_ws_at_bol bol (sub_leading_ws bol s)"
proof (induction bol s rule: sub_leading_ws.induct)
  case (1 bol)
  then show ?case by simp
next
  case (2 bol c cs)
  show ?case
  proof (cases "bol \<and> is_space c")
    case True
    let ?b = "last (c # takeWhile is_space cs) = 10"
    let ?r = "sub_leading_ws ?b (dropWhile is_space cs)"
    have "no_ws_at_bol ?b ?r" using 2(1) True by simp
    moreover have "?r = [] \<or> \<not> is_space (hd ?r)"
      by (rule sub_leading_ws_head) (rule dropWhile_head)
    ultimately have "no_ws_at_bol bol ?r"
      using no_ws_at_bol_flag by blast
    with True show ?thesis by simp
  next
    case False
    with 2(2) show ?thesis by auto
  qed
qed

lemma sub_leading_ws_fixed: "no_ws_at_bol bol s \<Longrightarrow> sub_leading_ws bol s = s"
  by (induction s arbitrary: bol) auto

lemma takeWhile_space_after_newline:
  "no_ws_at_bol True cs \<Longrightarrow> takeWhile is_space cs = []"
  by (cases cs) auto

lemma sub_blank_lines_fixed: "no_ws_at_bol bol s \<Longrightarrow> sub_blank_lines s = s"
proof (induction s arbitrary: bol)
  case Nil
  then show ?case by simp
next
  case (Cons c cs)
  have "no_ws_at_bol (c = 10) cs" using Cons.prems by simp
  then have rest: "sub_blank_lines cs = cs" by (rule Cons.IH)
  show ?case
  proof (cases "c = 10")
    case True
    then have "takeWhile is_space cs = []"
      using Cons(2) by (simp add: takeWhile_space_after_newline)
    with rest show ?thesis by simp
  next
    case False
    with rest show ?thesis by simp
  qed
qed

subsection \<open>Single spaces\<close>

lemma single_blanks_Cons:
  "single_blanks (c # t) \<longleftrightarrow> c \<noteq> 9 \<and> (t = [] \<or> \<not> (c = 32 \<and> hd t = 32)) \<and> single_blanks t"
  by (cases t) auto

lemma single_blanks_suffix: "single_blanks (xs @ ys) \<Longrightarrow> single_blanks ys"
  by (induction xs) (auto simp: single_blanks_Cons)

lemma single_blanks_prefix: "single_blanks (xs @ ys) \<Longrightarrow> single_blanks xs"
proof (induction xs)
  case Nil
  then show ?case by simp
next
  case (Cons c xs)
  then show ?case by (cases xs) (auto simp: single_blanks_Cons)
qed

lemma single_blanks_dropWhile: "single_blanks s \<Longrightarrow> single_blanks (dropWhile P s)"
  using single_blanks_suffix [of "takeWhile P s" "dropWhile P s"] by simp

lemma sub_blanks_Nil: "sub_blanks s = [] \<longleftrightarrow> s = []"
  by (cases s) auto

lemma sub_blanks_head: "s \<noteq> [] \<Longrightarrow> \<not> is_blank (hd s) \<Longrightarrow> hd (sub_blanks s) = hd s"
  by (cases s) auto

lemma sub_blanks_single: "single_blanks (sub_blanks s)"
proof (induction s rule: sub_blanks.induct)
  case 1
  then show ?case by simp
next
  case (2 c cs)
  show ?case
  proof (cases "is_blank c")
    case True
    let ?r = "dropWhile is_blank cs"
    have ih: "single_blanks (sub_blanks ?r)" using 2(1) True by simp
    have "sub_blanks ?r = [] \<or> hd (sub_blanks ?r) \<noteq> 32"
    proof (cases "?r = []")
      case True
      then have "sub_blanks ?r = []" by (simp only: sub_blanks.simps)
      then show ?thesis by (rule disjI1)
    next
      case False
      then have nb: "\<not> is_blank (hd ?r)" using dropWhile_head [of is_blank cs] by blast
      then have "hd (sub_blanks ?r) = hd ?r" using False by (simp add: sub_blanks_head)
      with nb show ?thesis by (auto simp: is_blank_def)
    qed
    with ih True show ?thesis by (auto simp: single_blanks_Cons)
  next
    case False
    then have "c \<noteq> 9" "c \<noteq> 32" by (auto simp: is_blank_def)
    with False 2(2) show ?thesis by (simp add: single_blanks_Cons)
  qed
qed

lemma sub_blanks_fixed: "single_blanks s \<Longrightarrow> sub_blanks s = s"
proof (induction s rule: single_blanks.induct)
  case 1
  then show ?case by simp
next
  case (2 c)
  then show ?case by (auto simp: is_blank_def)
next
  case (3 c d cs)
  then have d: "d \<noteq> 9" by (cases cs) auto
  show ?case
  proof (cases "is_blank c")
    case True
    then have "c = 32" using 3(2) by (auto simp: is_blank_def)
    then have "\<not> is_blank d" using 3(2) d by (auto simp: is_blank_def)
    then show ?thesis using 3 True \<open>c = 32\<close> by simp
  next
    case False
    then show ?thesis using 3 by simp
  qed
qed

lemma sub_leading_ws_False_Nil: "sub_leading_ws False s = [] \<longleftrightarrow> s = []"
  by (cases s) auto

lemma sub_leading_ws_False_head: "hd (sub_leading_ws False s) = hd s"
  by (cases s) auto

lemma sub_leading_ws_single:
  "single_blanks s \<Longrightarrow> single_blanks (sub_leading_ws bol s)"
proof (induction bol s rule: sub_leading_ws.induct)
  case (1 bol)
  then show ?case by simp
next
  case (2 bol c cs)
  have cs: "single_blanks cs" using 2(3) by (simp add: single_blanks_Cons)
  show ?case
  proof (cases "bol \<and> is_space c")
    case True
    have "single_blanks (dropWhile is_space cs)"
      using cs by (rule single_blanks_dropWhile)
    with 2(1) True show ?thesis by simp
  next
    case False
    let ?t = "sub_leading_ws (c = 10) cs"
    have ih: "single_blanks ?t" using 2(2) False cs by simp
    have "?t = [] \<or> \<not> (c = 32 \<and> hd ?t = 32)"
    proof (cases "c = 32")
      case True
      then have "?t = sub_leading_ws False cs" by simp
      then show ?thesis
        using 2(3) True
        by (auto simp: single_blanks_Cons sub_leading_ws_False_Nil sub_leading_ws_False_head)
    next
      case False
      then show ?thesis by simp
    qed
    with ih 2(3) False show ?thesis by (auto simp: single_blanks_Cons)
  qed
qed

subsection \<open>No full stop before a capital\<close>

lemma no_dot_upper_Cons:
  "no_dot_upper (c # t) \<longleftrightarrow> (t = [] \<or> \<not> (c = 46 \<and> is_upper_AZ (hd t))) \<and> no_dot_upper t"
  by (cases t) auto

lemma no_dot_upper_prefix: "no_dot_upper (xs @ ys) \<Longrightarrow> no_dot_upper xs"
proof (induction xs)
  case Nil
  then show ?case by simp
next
  case (Cons c xs)
  then show ?case by (cases xs) (auto simp: no_dot_upper_Cons)
qed

lemma sub_sentence_Nil: "sub_sentence s = [] \<longleftrightarrow> s = []"
  by (induction s rule: sub_sentence.induct) auto

lemma sub_sentence_head: "hd (sub_sentence s) = hd s"
  by (induction s rule: sub_sentence.induct) auto

lemma upper_not_special: "is_upper_AZ d \<Longrightarrow> d \<noteq> 46 \<and> d \<noteq> 32 \<and> d \<noteq> 9 \<and> d \<noteq> 10 \<and> \<not> is_space d"
  by (auto simp: is_upper_AZ_def is_space_def)

lemma sub_sentence_no_dot_upper: "no_dot_upper (sub_sentence s)"
proof (induction s rule: sub_sentence.induct)
  case 1
  then show ?case by simp
next
  case (2 c)
  then show ?case by simp
next
  case (3 c d cs)
  show ?case
  proof (cases "c = 46 \<and> is_upper_AZ d")
    case True
    then have "no_dot_upper (sub_sentence cs)" using 3(1) by simp
    moreover have "d \<noteq> 46" using True upper_not_special by blast
    ultimately show ?thesis
      using True by (simp add: no_dot_upper_Cons is_upper_AZ_def)
  next
    case False
    then have "no_dot_upper (sub_sentence (d # cs))" using 3(2) by simp
    with False show ?thesis
      by (auto simp: no_dot_upper_Cons sub_sentence_head sub_sentence_Nil)
  qed
qed

lemma sub_sentence_fixed: "no_dot_upper s \<Longrightarrow> sub_sentence s = s"
  by (induction s rule: sub_sentence.induct) auto

lemma sub_sentence_no_ws: "no_ws_at_bol bol s \<Longrightarrow> no_ws_at_bol bol (sub_sentence s)"
proof (induction s arbitrary: bol rule: sub_sentence.induct)
  case 1
  then show ?case by simp
next
  case (2 c)
  then show ?case by simp
next
  case (3 c d cs)
  show ?case
  proof (cases "c = 46 \<and> is_upper_AZ d")
    case True
    then have eq: "sub_sentence (c # d # cs) = 46 # 32 # d # sub_sentence cs" by simp
    have d: "d \<noteq> 10" using True upper_not_special by blast
    have "no_ws_at_bol (d = 10) cs" using 3(3) by simp
    then have "no_ws_at_bol (d = 10) (sub_sentence cs)" using 3(1) True by blast
    then show ?thesis unfolding eq using d by (simp add: is_space_def)
  next
    case False
    then have eq: "sub_sentence (c # d # cs) = c # sub_sentence (d # cs)" by auto
    have "no_ws_at_bol (c = 10) (d # cs)" using 3(3) by simp
    then have "no_ws_at_bol (c = 10) (sub_sentence (d # cs))" using 3(2) False by blast
    then show ?thesis unfolding eq using 3(3) by simp
  qed
qed

lemma sub_sentence_single: "single_blanks s \<Longrightarrow> single_blanks (sub_sentence s)"
proof (induction s rule: sub_sentence.induct)
  case 1
  then show ?case by simp
next
  case (2 c)
  then show ?case by simp
next
  case (3 c d cs)
  have dcs: "single_blanks (d # cs)" using 3(3) by simp
  show ?case
  proof (cases "c = 46 \<and> is_upper_AZ d")
    case True
    then have d: "d \<noteq> 32" "d \<noteq> 9" using upper_not_special by blast+
    have "single_blanks cs" using dcs by (simp add: single_blanks_Cons)
    then have "single_blanks (sub_sentence cs)" using 3(1) True by simp
    with True d show ?thesis by (simp add: single_blanks_Cons)
  next
    case False
    have "single_blanks (sub_sentence (d # cs))" using 3(2) False dcs by simp
    with False 3(3) show ?thesis
      by (auto simp: single_blanks_Cons sub_sentence_head sub_sentence_Nil)
  qed
qed

subsection \<open>Stripping\<close>

lemma strip_prefix_of_dropWhile: "\<exists>ys. dropWhile is_space s = strip s @ ys"
proof -
  let ?u = "dropWhile is_space s"
  have "rev (takeWhile is_space (rev ?u) @ dropWhile is_space (rev ?u)) = ?u"
    by (simp only: takeWhile_dropWhile_id rev_rev_ident)
  then have "rev (dropWhile is_space (rev ?u)) @ rev (takeWhile is_space (rev ?u)) = ?u"
    by (simp only: rev_append)
  then have "?u = strip s @ rev (takeWhile is_space (rev ?u))"
    unfolding strip_def by (rule sym)
  then show ?thesis by (rule exI)
qed

lemma dropWhile_no_ws: "no_ws_at_bol True s \<Longrightarrow> dropWhile is_space s = s"
  by (cases s) auto

lemma strip_prefix: "no_ws_at_bol True s \<Longrightarrow> \<exists>ys. s = strip s @ ys"
  using strip_prefix_of_dropWhile [of s] by (simp add: dropWhile_no_ws)

lemma strip_fixed: "strip (strip s) = strip s"
proof -
  let ?u = "dropWhile is_space s"
  let ?v = "strip s"
  obtain ys where u: "?u = ?v @ ys" using strip_prefix_of_dropWhile by blast
  have "?v = [] \<or> \<not> is_space (hd ?v)"
  proof (cases "?v = []")
    case True
    then show ?thesis by (rule disjI1)
  next
    case False
    then have "hd ?v = hd ?u" using u by (metis hd_append2)
    moreover have "?u \<noteq> []" using u False by auto
    ultimately show ?thesis using dropWhile_head [of is_space s] by auto
  qed
  then have 1: "dropWhile is_space ?v = ?v" by (cases ?v) auto
  have "dropWhile is_space (rev ?v) = dropWhile is_space (dropWhile is_space (rev ?u))"
    by (simp add: strip_def)
  also have "\<dots> = dropWhile is_space (rev ?u)" by (rule dropWhile_idem)
  finally have "rev (dropWhile is_space (rev ?v)) = ?v" by (simp add: strip_def)
  then show ?thesis using 1 by (simp add: strip_def [of ?v])
qed

subsection \<open>Cleaning twice\<close>

lemma clean_response_text_no_star:
  assumes "42 \<notin> set s"
  shows "clean_response_text s =
    strip (sub_sentence (sub_leading_ws True (sub_blanks (sub_blank_lines s))))"
proof (cases "s = []")
  case True
  then show ?thesis by (simp add: clean_response_text_def strip_def)
next
  case False
  have stars: "str ''***'' = 42 # [42, 42]" "str ''****'' = 42 # [42, 42, 42]"
    "str ''*****'' = 42 # [42, 42, 42, 42]"
    by (simp_all add: str_def)
  let ?s1 = "sub_blank_lines s"
  let ?s2 = "sub_blanks ?s1"
  let ?s3 = "sub_leading_ws True ?s2"
  have n3: "42 \<notin> set ?s3"
    using assms by (intro sub_leading_ws_no_star sub_blanks_no_star sub_blank_lines_no_star)
  show ?thesis
    using False assms n3
    by (simp add: clean_response_text_def Let_def stars replace_no_star sub_bullet_no_star
        sub_empty_bold_no_star sub_bold_tail_no_star)
qed

lemma cleaned_no_star:
  assumes "42 \<notin> set s"
  shows "42 \<notin> set (clean_response_text s)"
proof -
  have "42 \<notin> set (sub_sentence (sub_leading_ws True (sub_blanks (sub_blank_lines s))))"
    using assms
    by (intro sub_sentence_no_star sub_leading_ws_no_star sub_blanks_no_star
        sub_blank_lines_no_star)
  then show ?thesis
    using strip_subset unfolding clean_response_text_no_star [OF assms] by blast
qed

text \<open>
  C1, as the code has it. On a text without an asterisk (the empty text is one),
  \<open>clean_response_text\<close> is idempotent: cleaning the cleaned text changes nothing. The
  steps for asterisks do nothing on such a text, and what the other steps leave (no
  whitespace at the start of a line, single spaces, no full stop right before a capital,
  no whitespace at either end) is left alone by each of them.
\<close>

theorem clean_response_text_idempotent_no_asterisk:
  assumes "42 \<notin> set x"
  shows "clean_response_text (clean_response_text x) = clean_response_text x"
proof -
  let ?s2 = "sub_blanks (sub_blank_lines x)"
  let ?s3 = "sub_leading_ws True ?s2"
  let ?s4 = "sub_sentence ?s3"
  let ?t = "strip ?s4"
  have t: "clean_response_text x = ?t"
    using assms by (rule clean_response_text_no_star)
  have b4: "no_ws_at_bol True ?s4"
    by (intro sub_sentence_no_ws sub_leading_ws_no_ws)
  have s4: "single_blanks ?s4"
    by (intro sub_sentence_single sub_leading_ws_single sub_blanks_single)
  have d4: "no_dot_upper ?s4"
    by (rule sub_sentence_no_dot_upper)
  obtain ys where ys: "?s4 = ?t @ ys"
    using strip_prefix [OF b4] by blast
  have bt: "no_ws_at_bol True ?t"
    using b4 no_ws_at_bol_prefix [of True ?t ys] ys by simp
  have st: "single_blanks ?t"
    using s4 single_blanks_prefix [of ?t ys] ys by simp
  have dt: "no_dot_upper ?t"
    using d4 no_dot_upper_prefix [of ?t ys] ys by simp
  have "42 \<notin> set ?t"
    using cleaned_no_star [OF assms] t by simp
  then have "clean_response_text ?t =
      strip (sub_sentence (sub_leading_ws True (sub_blanks (sub_blank_lines ?t))))"
    by (rule clean_response_text_no_star)
  also have "sub_blank_lines ?t = ?t" using bt by (rule sub_blank_lines_fixed)
  also have "sub_blanks ?t = ?t" using st by (rule sub_blanks_fixed)
  also have "sub_leading_ws True ?t = ?t" using bt by (rule sub_leading_ws_fixed)
  also have "sub_sentence ?t = ?t" using dt by (rule sub_sentence_fixed)
  also have "strip ?t = ?t" by (rule strip_fixed)
  finally have "clean_response_text ?t = ?t" .
  then show ?thesis by (simp only: t)
qed

theorem clean_response_text_idempotent_no_asterisk_witness:
  "42 \<notin> set (str '' Hello.World,   how are you?'')
   \<and> clean_response_text (str '' Hello.World,   how are you?'') = str ''Hello. World, how are you?''
   \<and> clean_response_text (clean_response_text (str '' Hello.World,   how are you?''))
       = clean_response_text (str '' Hello.World,   how are you?'')"
proof -
  have h: "42 \<notin> set (str '' Hello.World,   how are you?'')"
    by (simp add: str_def)
  have c: "clean_response_text (str '' Hello.World,   how are you?'') = str ''Hello. World, how are you?''"
    by (simp add: clean_response_text_def replace_def str_def bullet_def is_space_def
      is_blank_def is_upper_AZ_def strip_def Let_def upto_last_newline_def)
  show ?thesis using h c clean_response_text_idempotent_no_asterisk [OF h] by blast
qed

text \<open>
  With asterisks the cleaner is not idempotent. Each substitution is one pass from left
  to right: of the three bold markers of \<open>** ** **\<close> the first two are merged, and the
  marker that comes out is merged with the third one only by a second cleaning.
\<close>

theorem clean_response_text_not_idempotent:
  "clean_response_text (clean_response_text (str ''** ** **''))
     \<noteq> clean_response_text (str ''** ** **'')"
  by (simp add: clean_response_text_def replace_def str_def bullet_def is_space_def
      is_blank_def is_upper_AZ_def strip_def Let_def upto_last_newline_def)

section \<open>Properties of the chat endpoint\<close>

lemma get_suggestions_no_key:
  "GROQ_API_KEY env = None \<or> GROQ_API_KEY env = Some []
   \<Longrightarrow> get_suggestions env q sc lp ss = Inr unavailable_suggestions"
  by (auto simp: get_suggestions_def)


lemma get_suggestions_invoke_update:
  "get_suggestions (env\<lparr>invoke := inv'\<rparr>) q sc lp ss = get_suggestions env q sc lp ss"
  by (simp add: get_suggestions_def split: option.split)


lemma chat_body_invoke_only_sid:
  assumes "\<forall>chain question concept problem source.
      inv' chain question concept problem source sid
        = invoke env chain question concept problem source sid"
  shows "chat_body ul (env\<lparr>invoke := inv'\<rparr>) q sid = chat_body ul env q sid"
  using assms by (simp add: chat_body_def get_suggestions_invoke_update)

lemma chat_body_returns:
  assumes "get_suggestions env q (extract_spiritual_concept ul q) (extract_life_problem ul q)
      (extract_scripture_source ul q) = Inr suggestions"
    and "answer_calls ul env q sid suggestions llm embedding db retriever chain rag_result
      final_answer"
  shows "chat_body ul env q sid = Inr (clean_response_text final_answer, suggestions, sid)"
  using assms by (simp add: chat_body_def answer_calls_def try_bind_def Let_def)

lemma chat_body_returned:
  assumes "chat_body ul env q sid = Inr (a, sg, sid')"
  shows "sid' = sid
    \<and> get_suggestions env q (extract_spiritual_concept ul q) (extract_life_problem ul q)
        (extract_scripture_source ul q) = Inr sg
    \<and> (\<exists>llm embedding db retriever chain rag_result final_answer.
          answer_calls ul env q sid sg llm embedding db retriever chain rag_result final_answer
          \<and> a = clean_response_text final_answer)"
proof -
  obtain llm where 1: "init_gemini_llm env (GEMINI_API_KEY env) = Inr llm"
    using assms by (cases "init_gemini_llm env (GEMINI_API_KEY env)")
      (simp_all add: chat_body_def try_bind_def Let_def)
  obtain embedding where 2: "init_embeddings env (GEMINI_API_KEY env) = Inr embedding"
    using assms 1 by (cases "init_embeddings env (GEMINI_API_KEY env)")
      (simp_all add: chat_body_def try_bind_def Let_def)
  obtain db where 3: "load_chroma_db env embedding = Inr db"
    using assms 1 2 by (cases "load_chroma_db env embedding")
      (simp_all add: chat_body_def try_bind_def Let_def)
  obtain retriever where 4: "as_retriever env db 5 = Inr retriever"
    using assms 1 2 3 by (cases "as_retriever env db 5")
      (simp_all add: chat_body_def try_bind_def Let_def)
  obtain chain where 5:
    "create_conversational_chain env llm retriever (GOOGLE_CREDENTIALS_JSON env) = Inr chain"
    using assms 1 2 3 4
    by (cases "create_conversational_chain env llm retriever (GOOGLE_CREDENTIALS_JSON env)")
      (simp_all add: chat_body_def try_bind_def Let_def)
  let ?c = "extract_spiritual_concept ul q"
  let ?p = "extract_life_problem ul q"
  let ?s = "extract_scripture_source ul q"
  obtain rag_result where 6: "invoke env chain q ?c ?p ?s sid = Inr rag_result"
    using assms 1 2 3 4 5 by (cases "invoke env chain q ?c ?p ?s sid")
      (simp_all add: chat_body_def try_bind_def Let_def)
  let ?rag = "clean_response_text
      (case rag_result of Some a \<Rightarrow> a | None \<Rightarrow> str ''Could not retrieve from knowledge base.'')"
  obtain suggestions where 7: "get_suggestions env q ?c ?p ?s = Inr suggestions"
    using assms 1 2 3 4 5 6 by (cases "get_suggestions env q ?c ?p ?s")
      (simp_all add: chat_body_def try_bind_def Let_def)
  obtain final_answer where 8:
    "merge_groq_and_rag_answers env llm ?rag suggestions ?c ?p ?s (contains_table_request ul q)
       = Inr final_answer"
    using assms 1 2 3 4 5 6 7
    by (cases "merge_groq_and_rag_answers env llm ?rag suggestions ?c ?p ?s
          (contains_table_request ul q)")
      (simp_all add: chat_body_def try_bind_def Let_def)
  have r: "chat_body ul env q sid = Inr (clean_response_text final_answer, suggestions, sid)"
    by (simp add: chat_body_def try_bind_def Let_def 1 2 3 4 5 6 7 8)
  with assms have e: "a = clean_response_text final_answer" "sg = suggestions" "sid' = sid"
    by simp_all
  have "answer_calls ul env q sid sg llm embedding db retriever chain rag_result final_answer"
    unfolding answer_calls_def e(2) using 1 2 3 4 5 6 8 by simp
  with e 7 show ?thesis by blast
qed

lemma handle_chat_200:
  "handle_chat ul env request = Response200 a sg sid \<longleftrightarrow>
     chat_body ul env (query request)
       (py_or (session_id request) (str ''session_'' @ uuid4_hex env)) = Inr (a, sg, sid)"
proof (cases "chat_body ul env (query request)
       (py_or (session_id request) (str ''session_'' @ uuid4_hex env))")
  case (Inl e)
  then show ?thesis by (cases e) (simp add: handle_chat_def Let_def)
next
  case (Inr p)
  then show ?thesis by (cases p) (auto simp: handle_chat_def Let_def)
qed


lemma example_answer:
  "clean_response_text (str ''Act without attachment.Stay calm.'')
     = str ''Act without attachment. Stay calm.''"
  by (simp add: clean_response_text_def replace_def str_def bullet_def is_space_def
      is_blank_def is_upper_AZ_def strip_def Let_def upto_last_newline_def)

lemma example_answer_cleaned:
  "clean_response_text (str ''Act without attachment. Stay calm.'')
     = str ''Act without attachment. Stay calm.''"
  by (simp add: clean_response_text_def replace_def str_def bullet_def is_space_def
      is_blank_def is_upper_AZ_def strip_def Let_def upto_last_newline_def)

lemma example_answer_calls:
  "answer_calls ul example_env q sid unavailable_suggestions () () () () ()
     (Some (str ''Act without attachment.Stay calm.''))
     (str ''Act without attachment. Stay calm.'')"
  by (simp add: answer_calls_def example_env_def example_answer)

lemma example_chat:
  "handle_chat ul example_env \<lparr>query = q, session_id = sid, format_table = ft\<rparr>
     = Response200 (str ''Act without attachment. Stay calm.'') unavailable_suggestions
         (py_or sid (str ''session_0123456789abcdef0123456789abcdef''))"
proof -
  have u: "str ''session_'' @ uuid4_hex example_env = str ''session_0123456789abcdef0123456789abcdef''"
    by (simp add: example_env_def str_def)
  have g: "get_suggestions example_env q c p s = Inr unavailable_suggestions" for c p s
    by (rule get_suggestions_no_key) (simp add: example_env_def)
  have "chat_body ul example_env q s
      = Inr (clean_response_text (str ''Act without attachment. Stay calm.''),
             unavailable_suggestions, s)" for s
    by (rule chat_body_returns [OF g example_answer_calls])
  then show ?thesis
    by (simp add: handle_chat_def Let_def example_answer_cleaned u)
qed




text \<open>
  C8, as the code has it. The session id of a request is the supplied \<open>session_id\<close> when
  one is supplied and is not empty, and otherwise (omitted, or the empty string)
  \<open>session_\<close> followed by the hex digits of the uuid drawn for the request. The chain is
  invoked under this id and under no other: what \<open>invoke\<close> does under another id changes
  nothing, and when the calls of the request return, the answer is the cleaned merge of
  what the chain gave under this id. Every 200 response returns this id as its session
  id, with an answer that came about in this way.
\<close>

theorem chat_session_id:
  assumes "sid = py_or (session_id request) (str ''session_'' @ uuid4_hex env)"
  shows "(session_id request = None \<or> session_id request = Some []
            \<longrightarrow> sid = str ''session_'' @ uuid4_hex env)
    \<and> (\<forall>s. session_id request = Some s \<and> s \<noteq> [] \<longrightarrow> sid = s)
    \<and> ((\<forall>chain question concept problem source.
           inv' chain question concept problem source sid
             = invoke env chain question concept problem source sid)
         \<longrightarrow> handle_chat ul (env\<lparr>invoke := inv'\<rparr>) request = handle_chat ul env request)
    \<and> (get_suggestions env (query request) (extract_spiritual_concept ul (query request))
            (extract_life_problem ul (query request))
            (extract_scripture_source ul (query request)) = Inr suggestions
          \<and> answer_calls ul env (query request) sid suggestions llm embedding db retriever chain
              rag_result final_answer
         \<longrightarrow> handle_chat ul env request
               = Response200 (clean_response_text final_answer) suggestions sid)
    \<and> (\<forall>a sg sid'. handle_chat ul env request = Response200 a sg sid' \<longrightarrow>
          sid' = sid
          \<and> (\<exists>llm embedding db retriever chain rag_result final_answer.
                answer_calls ul env (query request) sid sg llm embedding db retriever chain
                  rag_result final_answer
                \<and> a = clean_response_text final_answer))"
proof (intro conjI allI impI)
  show "sid = str ''session_'' @ uuid4_hex env"
    if "session_id request = None \<or> session_id request = Some []"
    using that assms by (auto simp: py_or_def)
  show "sid = s" if "session_id request = Some s \<and> s \<noteq> []" for s
    using that assms by (simp add: py_or_def)
  show "handle_chat ul (env\<lparr>invoke := inv'\<rparr>) request = handle_chat ul env request"
    if "\<forall>chain question concept problem source.
           inv' chain question concept problem source sid
             = invoke env chain question concept problem source sid"
  proof -
    have "chat_body ul (env\<lparr>invoke := inv'\<rparr>) (query request) sid
        = chat_body ul env (query request) sid"
      using that by (rule chat_body_invoke_only_sid)
    then show ?thesis using assms by (simp add: handle_chat_def Let_def)
  qed
  show "handle_chat ul env request = Response200 (clean_response_text final_answer) suggestions sid"
    if "get_suggestions env (query request) (extract_spiritual_concept ul (query request))
            (extract_life_problem ul (query request))
            (extract_scripture_source ul (query request)) = Inr suggestions
          \<and> answer_calls ul env (query request) sid suggestions llm embedding db retriever chain
              rag_result final_answer"
  proof -
    have "chat_body ul env (query request) sid
        = Inr (clean_response_text final_answer, suggestions, sid)"
      using that chat_body_returns [of env "query request" ul suggestions sid llm embedding db
          retriever chain rag_result final_answer]
      by blast
    then show ?thesis unfolding assms by (simp only: handle_chat_200)
  qed
  {
    fix a sg sid'
    assume "handle_chat ul env request = Response200 a sg sid'"
    then have b: "chat_body ul env (query request) sid = Inr (a, sg, sid')"
      unfolding assms by (simp only: handle_chat_200)
    show "sid' = sid" using chat_body_returned [OF b] by blast
    show "\<exists>llm embedding db retriever chain rag_result final_answer.
        answer_calls ul env (query request) sid sg llm embedding db retriever chain rag_result
          final_answer
        \<and> a = clean_response_text final_answer"
      using chat_body_returned [OF b] by blast
  }
qed

theorem chat_session_id_witness:
  "str ''s1'' = py_or (session_id
        \<lparr>query = str ''how do I deal with anger according to the gita'',
         session_id = Some (str ''s1''), format_table = False\<rparr>)
      (str ''session_'' @ uuid4_hex example_env)
   \<and> handle_chat example_lower example_env
        \<lparr>query = str ''how do I deal with anger according to the gita'',
         session_id = Some (str ''s1''), format_table = False\<rparr>
       = Response200 (str ''Act without attachment. Stay calm.'') unavailable_suggestions
           (str ''s1'')
   \<and> handle_chat example_lower example_env
        \<lparr>query = str ''how do I deal with anger according to the gita'',
         session_id = None, format_table = False\<rparr>
       = Response200 (str ''Act without attachment. Stay calm.'') unavailable_suggestions
           (str ''session_'' @ uuid4_hex example_env)"
proof -
  let ?r1 = "\<lparr>query = str ''how do I deal with anger according to the gita'',
         session_id = Some (str ''s1''), format_table = False\<rparr>"
  let ?r2 = "\<lparr>query = str ''how do I deal with anger according to the gita'',
         session_id = None, format_table = False\<rparr>"
  have h1: "str ''s1'' = py_or (session_id ?r1) (str ''session_'' @ uuid4_hex example_env)"
    by (simp add: py_or_def str_def)
  have h2: "str ''session_'' @ uuid4_hex example_env
      = py_or (session_id ?r2) (str ''session_'' @ uuid4_hex example_env)"
    by (simp add: py_or_def)
  have g: "get_suggestions example_env (query r) (extract_spiritual_concept example_lower (query r))
      (extract_life_problem example_lower (query r))
      (extract_scripture_source example_lower (query r)) = Inr unavailable_suggestions" for r
    by (rule get_suggestions_no_key) (simp add: example_env_def)
  have r1: "handle_chat example_lower example_env ?r1
      = Response200 (clean_response_text (str ''Act without attachment. Stay calm.''))
          unavailable_suggestions (str ''s1'')"
    using chat_session_id [OF h1, where ul = example_lower] g [of ?r1]
      example_answer_calls [of example_lower "query ?r1" "str ''s1''"]
    by blast
  have r2: "handle_chat example_lower example_env ?r2
      = Response200 (clean_response_text (str ''Act without attachment. Stay calm.''))
          unavailable_suggestions (str ''session_'' @ uuid4_hex example_env)"
    using chat_session_id [OF h2, where ul = example_lower] g [of ?r2]
      example_answer_calls [of example_lower "query ?r2" "str ''session_'' @ uuid4_hex example_env"]
    by blast
  show ?thesis
    using h1 r1 r2 unfolding example_answer_cleaned by blast
qed

text \<open>
  A supplied session id is not always the one of the response: the empty string is
  falsy, so \<open>request.session_id or ...\<close> replaces it by a generated id.
\<close>

theorem chat_session_id_counterexample:
  "handle_chat example_lower example_env
        \<lparr>query = str ''how do I deal with anger according to the gita'',
         session_id = Some [], format_table = False\<rparr>
       = Response200 (str ''Act without attachment. Stay calm.'') unavailable_suggestions
           (str ''session_0123456789abcdef0123456789abcdef'')
   \<and> str ''session_0123456789abcdef0123456789abcdef'' \<noteq> []"
  by (simp add: example_chat py_or_def) (simp add: str_def)

end
